theory Spec2Isabelle
  imports Main "HOL-Library.Word" "HOL-Library.Sublist"
begin

section \<open>Values that cross the HTTP boundary\<close>

text \<open>
  The backend (\<^verbatim>\<open>src/unnamed/part_002\<close>) destructures its fields from a JSON body.
  A field that is not in the body is \<^verbatim>\<open>undefined\<close>: here \<open>None\<close>. Fields are typed as
  the file's own declarations \<^verbatim>\<open>SignatureInfo\<close> and \<^verbatim>\<open>TransactionProposal\<close> type them
  (\<^verbatim>\<open>string\<close>, \<^verbatim>\<open>number\<close>); \<^verbatim>\<open>chainId\<close> and \<^verbatim>\<open>value\<close>, which the handler turns into
  strings itself (the template literal, \<^verbatim>\<open>String(value)\<close>), are a number or a string.
  Numbers are the integers the protocol sends (chain ids, nonces, amounts).
\<close>

datatype scalar = Num int | Str string

function show_nat :: "nat \<Rightarrow> string" where
  "show_nat n =
     (if n < 10 then [''0123456789'' ! n]
      else show_nat (n div 10) @ [''0123456789'' ! (n mod 10)])"
  by pat_completeness auto
termination
  by (relation "measure id") auto

declare show_nat.simps [simp del]

definition show_int :: "int \<Rightarrow> string" where
  "show_int i = (if i < 0 then CHR ''-'' # show_nat (nat (- i)) else show_nat (nat i))"

text \<open>\<^verbatim>\<open>String(v)\<close> and \<^verbatim>\<open>`${v}`\<close> on a number or a string.\<close>

fun toStr :: "scalar \<Rightarrow> string" where
  "toStr (Num n) = show_int n"
| "toStr (Str s) = s"

text \<open>
  \<^verbatim>\<open>!x\<close>: a missing field, the empty string and the number zero are falsy.
\<close>

fun falsy_str :: "string option \<Rightarrow> bool" where
  "falsy_str None = True"
| "falsy_str (Some s) = (s = [])"

fun falsy_scalar :: "scalar option \<Rightarrow> bool" where
  "falsy_scalar None = True"
| "falsy_scalar (Some (Num n)) = (n = 0)"
| "falsy_scalar (Some (Str s)) = (s = [])"

text \<open>
  \<^verbatim>\<open>s.toLowerCase()\<close>. Signer identities are hexadecimal addresses, so the letters that
  have an upper case are the ASCII ones; every other character is kept. The proofs use
  nothing of it but that it is a function of the string.
\<close>

definition lower_char :: "char \<Rightarrow> char" where
  "lower_char c =
     (case map_of (zip ''ABCDEFGHIJKLMNOPQRSTUVWXYZ'' ''abcdefghijklmnopqrstuvwxyz'') c of
        Some l \<Rightarrow> l
      | None \<Rightarrow> c)"

definition toLowerCase :: "string \<Rightarrow> string" where
  "toLowerCase s = map lower_char s"

section \<open>The coordinator's data\<close>

record SignatureInfo =
  signer :: string
  signature :: string

record TransactionProposal =
  hash :: string
  to :: string
  value_str :: string
  data :: string
  nonce :: int
  proposer :: "string option"
  signatures :: "SignatureInfo list"

text \<open>
  \<^verbatim>\<open>multisigData\<close>: an object of objects, keyed by \<^verbatim>\<open>`${address}_${chainId}`\<close> and then
  by the transaction hash. \<open>store\<close> is what the handlers have stored in it: the
  properties that \<^verbatim>\<open>multisigData\<close> and the objects in it have of their own.
\<close>

type_synonym proposals = "string \<rightharpoonup> TransactionProposal"
type_synonym store = "string \<rightharpoonup> proposals"

definition lookup :: "store \<Rightarrow> string \<Rightarrow> string \<Rightarrow> TransactionProposal option" where
  "lookup stored key h = (case stored key of None \<Rightarrow> None | Some entries \<Rightarrow> entries h)"

section \<open>What every object inherits\<close>

text \<open>
  \<^verbatim>\<open>multisigData\<close> and the objects in it are plain objects (\<^verbatim>\<open>{}\<close>), and the handlers
  read them with \<^verbatim>\<open>multisigData[key]\<close> and \<^verbatim>\<open>multisigData[key][hash]\<close>: a name that the
  object does not have itself is looked up in \<^verbatim>\<open>Object.prototype\<close>. That object has
  eleven functions and the accessor \<^verbatim>\<open>__proto__\<close>, which answers with the prototype of
  the object it is read from; and it has whatever a handler has written to it, which the
  handler does when \<^verbatim>\<open>multisigData[key]\<close> is \<^verbatim>\<open>Object.prototype\<close> itself.
\<close>

definition object_prototype_functions :: "string list" where
  "object_prototype_functions =
     [''constructor'', ''__defineGetter__'', ''__defineSetter__'', ''hasOwnProperty'',
      ''__lookupGetter__'', ''__lookupSetter__'', ''isPrototypeOf'', ''propertyIsEnumerable'',
      ''toString'', ''valueOf'', ''toLocaleString'']"

text \<open>
  A multisig key has \<^verbatim>\<open>_\<close> in it, so of these functions \<^verbatim>\<open>multisigData[key]\<close> can only
  be one of the four whose names have: a function object, with \<^verbatim>\<open>length\<close> and \<^verbatim>\<open>name\<close> of
  its own, that inherits from \<^verbatim>\<open>Function.prototype\<close> and then from \<^verbatim>\<open>Object.prototype\<close>.
\<close>

datatype legacy = DefineGetter | DefineSetter | LookupGetter | LookupSetter

fun legacy_name :: "legacy \<Rightarrow> string" where
  "legacy_name DefineGetter = ''__defineGetter__''"
| "legacy_name DefineSetter = ''__defineSetter__''"
| "legacy_name LookupGetter = ''__lookupGetter__''"
| "legacy_name LookupSetter = ''__lookupSetter__''"

fun legacy_length :: "legacy \<Rightarrow> int" where
  "legacy_length DefineGetter = 2"
| "legacy_length DefineSetter = 2"
| "legacy_length LookupGetter = 1"
| "legacy_length LookupSetter = 1"

definition legacy_of :: "string \<Rightarrow> legacy option" where
  "legacy_of name =
     (if name = ''__defineGetter__'' then Some DefineGetter
      else if name = ''__defineSetter__'' then Some DefineSetter
      else if name = ''__lookupGetter__'' then Some LookupGetter
      else if name = ''__lookupSetter__'' then Some LookupSetter
      else None)"

definition function_prototype_functions :: "string list" where
  "function_prototype_functions = [''apply'', ''bind'', ''call'', ''constructor'', ''toString'']"

text \<open>
  A proposal that a handler has written to \<^verbatim>\<open>Object.prototype\<close> can itself be
  \<^verbatim>\<open>multisigData[key]\<close> later, and then takes the properties that \<^verbatim>\<open>/propose\<close> writes to
  it: \<open>added\<close>, beside the fields it was made with.
\<close>

record polluted =
  own_fields :: TransactionProposal
  added :: proposals

text \<open>
  The state of the coordinator: what is stored in \<^verbatim>\<open>multisigData\<close>, what the handlers
  have written to \<^verbatim>\<open>Object.prototype\<close>, and what they have written to the four functions.
\<close>

record coordinator =
  multisigData :: store
  objectPrototype :: "string \<rightharpoonup> polluted"
  functionProps :: "legacy \<Rightarrow> proposals"

definition initial :: coordinator where
  "initial = \<lparr>multisigData = Map.empty, objectPrototype = Map.empty,
              functionProps = (\<lambda>f. Map.empty)\<rparr>"

text \<open>The values a property read can give, and the ones that are truthy.\<close>

datatype jsval =
    Undefined
  | Null
  | JStr string
  | JNum int
  | JArray "SignatureInfo list"
  | JProposal TransactionProposal
  | JPolluted polluted
  | JEntries proposals
  | ObjectPrototype
  | BuiltinFunction string
  | FunctionPrototype
  | FunctionMember string

fun truthy :: "jsval \<Rightarrow> bool" where
  "truthy Undefined = False"
| "truthy Null = False"
| "truthy (JStr s) = (s \<noteq> [])"
| "truthy (JNum n) = (n \<noteq> 0)"
| "truthy v = True"

datatype error = TypeError

text \<open>
  A name looked up in \<^verbatim>\<open>Object.prototype\<close>, for a receiver whose prototype is given:
  \<^verbatim>\<open>__proto__\<close> answers with that prototype.
\<close>

definition from_object_prototype :: "coordinator \<Rightarrow> jsval \<Rightarrow> string \<Rightarrow> jsval" where
  "from_object_prototype s prototype_of_receiver name =
     (if name = ''__proto__'' then prototype_of_receiver
      else if name \<in> set object_prototype_functions then BuiltinFunction name
      else case objectPrototype s name of
             Some q \<Rightarrow> JPolluted q
           | None \<Rightarrow> Undefined)"

text \<open>\<^verbatim>\<open>multisigData[key]\<close>, when it is not \<^verbatim>\<open>undefined\<close>.\<close>

datatype target =
    Entries proposals
  | TheObjectPrototype
  | TheFunction legacy
  | PollutedObject polluted

definition multisigData_at :: "coordinator \<Rightarrow> string \<Rightarrow> target option" where
  "multisigData_at s key =
     (case multisigData s key of
        Some entries \<Rightarrow> Some (Entries entries)
      | None \<Rightarrow>
          if key = ''__proto__'' then Some TheObjectPrototype
          else case legacy_of key of
                 Some f \<Rightarrow> Some (TheFunction f)
               | None \<Rightarrow> map_option PollutedObject (objectPrototype s key))"

fun value_of_target :: "target \<Rightarrow> jsval" where
  "value_of_target (Entries entries) = JEntries entries"
| "value_of_target TheObjectPrototype = ObjectPrototype"
| "value_of_target (TheFunction f) = BuiltinFunction (legacy_name f)"
| "value_of_target (PollutedObject q) = JPolluted q"

text \<open>The fields that \<^verbatim>\<open>newProposal\<close> gives a proposal, by name.\<close>

definition own_field :: "TransactionProposal \<Rightarrow> string \<Rightarrow> jsval option" where
  "own_field p name =
     (if name = ''hash'' then Some (JStr (hash p))
      else if name = ''to'' then Some (JStr (to p))
      else if name = ''value'' then Some (JStr (value_str p))
      else if name = ''data'' then Some (JStr (data p))
      else if name = ''nonce'' then Some (JNum (nonce p))
      else if name = ''proposer'' then
        Some (case proposer p of None \<Rightarrow> Undefined | Some a \<Rightarrow> JStr a)
      else if name = ''signatures'' then Some (JArray (signatures p))
      else None)"

text \<open>
  \<^verbatim>\<open>multisigData[key][hash]\<close>: the object's own property, or the one it inherits. On a
  function, \<^verbatim>\<open>caller\<close> and \<^verbatim>\<open>arguments\<close> are accessors of \<^verbatim>\<open>Function.prototype\<close> that
  throw.
\<close>

fun member :: "coordinator \<Rightarrow> target \<Rightarrow> string \<Rightarrow> error + jsval" where
  "member s (Entries entries) name =
     Inr (case entries name of
            Some p \<Rightarrow> JProposal p
          | None \<Rightarrow> from_object_prototype s ObjectPrototype name)"
| "member s TheObjectPrototype name = Inr (from_object_prototype s Null name)"
| "member s (TheFunction f) name =
     (if name = ''length'' then Inr (JNum (legacy_length f))
      else if name = ''name'' then Inr (JStr (legacy_name f))
      else case functionProps s f name of
             Some p \<Rightarrow> Inr (JProposal p)
           | None \<Rightarrow>
               if name \<in> set function_prototype_functions then Inr (FunctionMember name)
               else if name = ''arguments'' \<or> name = ''caller'' then Inl TypeError
               else Inr (from_object_prototype s FunctionPrototype name))"
| "member s (PollutedObject q) name =
     Inr (case added q name of
            Some p \<Rightarrow> JProposal p
          | None \<Rightarrow>
              (case own_field (own_fields q) name of
                 Some v \<Rightarrow> v
               | None \<Rightarrow> from_object_prototype s ObjectPrototype name))"

section \<open>Requests and answers\<close>

record propose_body =
  pb_address :: "string option"
  pb_chainId :: "scalar option"
  pb_hash :: "string option"
  pb_to :: "string option"
  pb_value :: "scalar option"
  pb_data :: "string option"
  pb_nonce :: "int option"
  pb_proposer :: "string option"

record sign_body =
  sb_address :: "string option"
  sb_chainId :: "scalar option"
  sb_hash :: "string option"
  sb_signer :: "string option"
  sb_signature :: "string option"

text \<open>
  An answer is the status and the value that the handler gives to
  \<^verbatim>\<open>res.status(...).send(...)\<close>: an error message, a value, or the message and the value of
  a 409. A handler that throws gives no answer: \<open>Inl\<close>. Every \<^verbatim>\<open>throw\<close> below comes before
  the handler has written anything, so the state after it is the state before.
\<close>

datatype payload =
    ErrorBody string
  | ValueBody jsval
  | ConflictBody string jsval

record response =
  status :: nat
  body :: payload

definition multisigKey :: "string \<Rightarrow> string \<Rightarrow> string" where
  "multisigKey address chainId = address @ ''_'' @ chainId"

section \<open>The handlers\<close>

text \<open>
  \<^verbatim>\<open>app.get("/proposals/:address/:chainId")\<close>: both route parameters are strings. The
  handler sends \<^verbatim>\<open>multisigData[key] || {}\<close>, and every value that \<^verbatim>\<open>multisigData[key]\<close> can
  have but \<^verbatim>\<open>undefined\<close> is truthy. \<^verbatim>\<open>res.send\<close> gives an object to \<^verbatim>\<open>res.json\<close>; a function
  it gives to \<^verbatim>\<open>Buffer.from\<close>, which throws.
\<close>

definition get_proposals ::
  "coordinator \<Rightarrow> string \<Rightarrow> string \<Rightarrow> error + coordinator \<times> response" where
  "get_proposals s address chainId =
     (let key = multisigKey address chainId in
      case multisigData_at s key of
        None \<Rightarrow> Inr (s, \<lparr>status = 200, body = ValueBody (JEntries Map.empty)\<rparr>)
      | Some (TheFunction f) \<Rightarrow> Inl TypeError
      | Some t \<Rightarrow> Inr (s, \<lparr>status = 200, body = ValueBody (value_of_target t)\<rparr>))"

text \<open>
  The condition of the "Basic validation" of \<^verbatim>\<open>/propose\<close>, as it is written:
  \<^verbatim>\<open>address\<close>, \<^verbatim>\<open>chainId\<close>, \<^verbatim>\<open>hash\<close> and \<^verbatim>\<open>to\<close> must be truthy; \<^verbatim>\<open>value\<close>, \<^verbatim>\<open>data\<close> and
  \<^verbatim>\<open>nonce\<close> are only compared with \<^verbatim>\<open>undefined\<close>; \<^verbatim>\<open>proposer\<close> is not looked at.
\<close>

definition propose_invalid :: "propose_body \<Rightarrow> bool" where
  "propose_invalid b =
     (falsy_str (pb_address b) \<or> falsy_scalar (pb_chainId b) \<or> falsy_str (pb_hash b) \<or>
      falsy_str (pb_to b) \<or> pb_value b = None \<or> pb_data b = None \<or> pb_nonce b = None)"

definition missing_proposal :: response where
  "missing_proposal = \<lparr>status = 400, body = ErrorBody ''Missing required fields for proposal.''\<rparr>"

text \<open>
  \<^verbatim>\<open>multisigData[key][hash] = newProposal\<close>. The handler writes a name only after it has
  read it as falsy, so on an object that has a prototype the name is not \<^verbatim>\<open>__proto__\<close>,
  and on a function it is not \<^verbatim>\<open>length\<close> or \<^verbatim>\<open>name\<close>. On \<^verbatim>\<open>Object.prototype\<close> itself
  \<^verbatim>\<open>__proto__\<close> reads as \<^verbatim>\<open>null\<close>, and writing it throws: its prototype cannot be set.
\<close>

fun store_new ::
  "coordinator \<Rightarrow> string \<Rightarrow> target \<Rightarrow> string \<Rightarrow> TransactionProposal \<Rightarrow> error + coordinator" where
  "store_new s key (Entries entries) h p =
     Inr (s\<lparr>multisigData := (multisigData s)(key \<mapsto> entries(h \<mapsto> p))\<rparr>)"
| "store_new s key TheObjectPrototype h p =
     (if h = ''__proto__'' then Inl TypeError
      else Inr (s\<lparr>objectPrototype :=
                  (objectPrototype s)(h \<mapsto> \<lparr>own_fields = p, added = Map.empty\<rparr>)\<rparr>))"
| "store_new s key (TheFunction f) h p =
     Inr (s\<lparr>functionProps := (functionProps s)(f := (functionProps s f)(h \<mapsto> p))\<rparr>)"
| "store_new s key (PollutedObject q) h p =
     Inr (s\<lparr>objectPrototype := (objectPrototype s)(key \<mapsto> q\<lparr>added := (added q)(h \<mapsto> p)\<rparr>)\<rparr>)"

text \<open>
  \<^verbatim>\<open>/propose\<close>. After the validation every field but \<^verbatim>\<open>proposer\<close> has a value, which the
  \<open>case\<close> binds; its last line is the validation's branch again, for the bodies where a
  field is \<^verbatim>\<open>undefined\<close>. When \<^verbatim>\<open>multisigData[key]\<close> is \<^verbatim>\<open>undefined\<close> the handler stores an
  empty object under the key; then it reads \<^verbatim>\<open>multisigData[key][hash]\<close>, answers 409 with
  what it has read when that is truthy, and stores the new proposal otherwise.
\<close>

definition propose :: "coordinator \<Rightarrow> propose_body \<Rightarrow> error + coordinator \<times> response" where
  "propose s b =
     (case (pb_address b, pb_chainId b, pb_hash b, pb_to b, pb_value b, pb_data b, pb_nonce b) of
        (Some address, Some chainId, Some hash', Some to', Some value', Some data', Some nonce') \<Rightarrow>
          if propose_invalid b then Inr (s, missing_proposal)
          else
            (let key = multisigKey address (toStr chainId);
                 s1 = (case multisigData_at s key of
                         None \<Rightarrow> s\<lparr>multisigData := (multisigData s)(key \<mapsto> Map.empty)\<rparr>
                       | Some t \<Rightarrow> s);
                 t = (case multisigData_at s key of
                         None \<Rightarrow> Entries Map.empty
                       | Some t \<Rightarrow> t)
             in case member s1 t hash' of
                  Inl e \<Rightarrow> Inl e
                | Inr existing \<Rightarrow>
                    if truthy existing then
                      Inr (s1, \<lparr>status = 409,
                                body = ConflictBody ''Proposal with this hash already exists.''
                                         existing\<rparr>)
                    else
                      (let newProposal =
                         \<lparr>hash = hash', to = to', value_str = toStr value', data = data',
                          nonce = nonce', proposer = pb_proposer b, signatures = []\<rparr>
                       in case store_new s1 key t hash' newProposal of
                            Inl e \<Rightarrow> Inl e
                          | Inr s2 \<Rightarrow>
                              Inr (s2, \<lparr>status = 201, body = ValueBody (JProposal newProposal)\<rparr>)))
      | _ \<Rightarrow> Inr (s, missing_proposal))"

text \<open>
  \<^verbatim>\<open>proposal.signatures\<close> is an array when \<^verbatim>\<open>proposal\<close> is a proposal. Of any other truthy
  value it is \<^verbatim>\<open>undefined\<close> or an object without \<^verbatim>\<open>find\<close>, and \<^verbatim>\<open>.find(...)\<close> throws.
\<close>

fun signatures_of :: "jsval \<Rightarrow> SignatureInfo list option" where
  "signatures_of (JProposal p) = Some (signatures p)"
| "signatures_of (JPolluted q) = Some (signatures (own_fields q))"
| "signatures_of v = None"

fun with_signatures :: "jsval \<Rightarrow> SignatureInfo list \<Rightarrow> jsval" where
  "with_signatures (JProposal p) sigs = JProposal (p\<lparr>signatures := sigs\<rparr>)"
| "with_signatures (JPolluted q) sigs =
     JPolluted (q\<lparr>own_fields := (own_fields q)\<lparr>signatures := sigs\<rparr>\<rparr>)"
| "with_signatures v sigs = v"

text \<open>
  \<^verbatim>\<open>proposal.signatures.push(...)\<close> changes the array where the proposal is: a proposal
  that was read from \<^verbatim>\<open>Object.prototype\<close> is there under the hash; any other is a
  property of \<^verbatim>\<open>multisigData[key]\<close>.
\<close>

fun store_signatures ::
  "coordinator \<Rightarrow> string \<Rightarrow> target \<Rightarrow> string \<Rightarrow> jsval \<Rightarrow> SignatureInfo list \<Rightarrow> coordinator" where
  "store_signatures s key t h (JPolluted q) sigs =
     s\<lparr>objectPrototype :=
         (objectPrototype s)(h \<mapsto> q\<lparr>own_fields := (own_fields q)\<lparr>signatures := sigs\<rparr>\<rparr>)\<rparr>"
| "store_signatures s key (Entries entries) h (JProposal p) sigs =
     s\<lparr>multisigData := (multisigData s)(key \<mapsto> entries(h \<mapsto> p\<lparr>signatures := sigs\<rparr>))\<rparr>"
| "store_signatures s key (TheFunction f) h (JProposal p) sigs =
     s\<lparr>functionProps := (functionProps s)(f := (functionProps s f)(h \<mapsto> p\<lparr>signatures := sigs\<rparr>))\<rparr>"
| "store_signatures s key (PollutedObject q) h (JProposal p) sigs =
     s\<lparr>objectPrototype :=
         (objectPrototype s)(key \<mapsto> q\<lparr>added := (added q)(h \<mapsto> p\<lparr>signatures := sigs\<rparr>)\<rparr>)\<rparr>"
| "store_signatures s key t h v sigs = s"

text \<open>
  \<^verbatim>\<open>/sign\<close>: all five fields must be truthy. \<^verbatim>\<open>multisigData[key]\<close> and then
  \<^verbatim>\<open>multisigData[key][hash]\<close> are read and must be truthy, then \<^verbatim>\<open>signatures.find\<close>
  searches the signer with both sides in lower case, and only when it finds none is the
  new entry pushed to the end of the array.
\<close>

definition sign_invalid :: "sign_body \<Rightarrow> bool" where
  "sign_invalid b =
     (falsy_str (sb_address b) \<or> falsy_scalar (sb_chainId b) \<or> falsy_str (sb_hash b) \<or>
      falsy_str (sb_signer b) \<or> falsy_str (sb_signature b))"

definition missing_signing :: response where
  "missing_signing = \<lparr>status = 400, body = ErrorBody ''Missing required fields for signing.''\<rparr>"

definition sign :: "coordinator \<Rightarrow> sign_body \<Rightarrow> error + coordinator \<times> response" where
  "sign s b =
     (case (sb_address b, sb_chainId b, sb_hash b, sb_signer b, sb_signature b) of
        (Some address, Some chainId, Some hash', Some signer', Some signature') \<Rightarrow>
          if sign_invalid b then Inr (s, missing_signing)
          else
            (let key = multisigKey address (toStr chainId) in
             case multisigData_at s key of
               None \<Rightarrow>
                 Inr (s, \<lparr>status = 404,
                          body = ErrorBody ''Multisig contract not found in backend storage.''\<rparr>)
             | Some t \<Rightarrow>
                (case member s t hash' of
                   Inl e \<Rightarrow> Inl e
                 | Inr proposal \<Rightarrow>
                     if \<not> truthy proposal then
                       Inr (s, \<lparr>status = 404,
                                body = ErrorBody ''Proposal with the given hash not found.''\<rparr>)
                     else
                       (case signatures_of proposal of
                          None \<Rightarrow> Inl TypeError
                        | Some sigs \<Rightarrow>
                           (case find (\<lambda>sigInfo. toLowerCase (signer sigInfo) = toLowerCase signer')
                                   sigs of
                              Some existingSignature \<Rightarrow>
                                Inr (s, \<lparr>status = 409,
                                         body = ConflictBody
                                           ''Signer has already signed this proposal.'' proposal\<rparr>)
                            | None \<Rightarrow>
                                (let newSignatureInfo =
                                       \<lparr>signer = signer', signature = signature'\<rparr>;
                                     sigs1 = sigs @ [newSignatureInfo]
                                 in Inr (store_signatures s key t hash' proposal sigs1,
                                         \<lparr>status = 200,
                                          body = ValueBody (with_signatures proposal sigs1)\<rparr>))))))
      | _ \<Rightarrow> Inr (s, missing_signing))"

text \<open>
  The states the coordinator can be in: the one it starts in, and what any request that
  is answered makes of a state it can be in.
\<close>

inductive step :: "coordinator \<Rightarrow> coordinator \<Rightarrow> bool" where
  step_list: "get_proposals s address chainId = Inr (s', r) \<Longrightarrow> step s s'"
| step_propose: "propose s pb = Inr (s', r) \<Longrightarrow> step s s'"
| step_sign: "sign s sb = Inr (s', r) \<Longrightarrow> step s s'"

inductive reachable :: "coordinator \<Rightarrow> bool" where
  reachable_init: "reachable initial"
| reachable_step: "reachable s \<Longrightarrow> step s s' \<Longrightarrow> reachable s'"

section \<open>Requests with every field, and the predicates of the statements\<close>

text \<open>
  A body with every field of \<^verbatim>\<open>/propose\<close> (the proposer may be missing), a body with
  every field of \<^verbatim>\<open>/sign\<close>, the claimed identity having an entry already (the test of
  \<^verbatim>\<open>signatures.find\<close>), a proposal with one entry for each claimed identity, and a store
  of such proposals. \<open>inherited\<close>: every plain object has a property of this name, of
  \<^verbatim>\<open>Object.prototype\<close>'s own or written to it. No digest and no address that begins with
  \<^verbatim>\<open>0x\<close> is such a name while nothing has been written to \<^verbatim>\<open>Object.prototype\<close>.
\<close>

definition propose_request ::
  "string \<Rightarrow> scalar \<Rightarrow> string \<Rightarrow> string \<Rightarrow> scalar \<Rightarrow> string \<Rightarrow> int \<Rightarrow> string option \<Rightarrow> propose_body" where
  "propose_request address chainId h t v d n pr =
     \<lparr>pb_address = Some address, pb_chainId = Some chainId, pb_hash = Some h, pb_to = Some t,
      pb_value = Some v, pb_data = Some d, pb_nonce = Some n, pb_proposer = pr\<rparr>"

definition sign_request :: "string \<Rightarrow> scalar \<Rightarrow> string \<Rightarrow> string \<Rightarrow> string \<Rightarrow> sign_body" where
  "sign_request address chainId h who sg =
     \<lparr>sb_address = Some address, sb_chainId = Some chainId, sb_hash = Some h,
      sb_signer = Some who, sb_signature = Some sg\<rparr>"

text \<open>The multisig key that a body names, when it has an address and a chain.\<close>

definition pb_key :: "propose_body \<Rightarrow> string option" where
  "pb_key b =
     (case (pb_address b, pb_chainId b) of
        (Some address, Some chainId) \<Rightarrow> Some (multisigKey address (toStr chainId))
      | _ \<Rightarrow> None)"

definition sb_key :: "sign_body \<Rightarrow> string option" where
  "sb_key b =
     (case (sb_address b, sb_chainId b) of
        (Some address, Some chainId) \<Rightarrow> Some (multisigKey address (toStr chainId))
      | _ \<Rightarrow> None)"

definition claimed :: "TransactionProposal \<Rightarrow> string \<Rightarrow> bool" where
  "claimed p who = (toLowerCase who \<in> set (map (\<lambda>sigInfo. toLowerCase (signer sigInfo)) (signatures p)))"

definition unique_approvals :: "TransactionProposal \<Rightarrow> bool" where
  "unique_approvals p = distinct (map (\<lambda>sigInfo. toLowerCase (signer sigInfo)) (signatures p))"

definition store_ok :: "store \<Rightarrow> bool" where
  "store_ok stored = (\<forall>key h p. lookup stored key h = Some p \<longrightarrow> unique_approvals p)"

text \<open>
  The same of every proposal the coordinator holds, wherever a handler has written it:
  in \<^verbatim>\<open>multisigData\<close>, on \<^verbatim>\<open>Object.prototype\<close> (the proposal itself and the ones added to
  it as properties), or as a property of an inherited function.
\<close>

definition proposals_ok :: "proposals \<Rightarrow> bool" where
  "proposals_ok entries = (\<forall>h p. entries h = Some p \<longrightarrow> unique_approvals p)"

definition state_ok :: "coordinator \<Rightarrow> bool" where
  "state_ok s =
     ((\<forall>key entries. multisigData s key = Some entries \<longrightarrow> proposals_ok entries) \<and>
      (\<forall>name q. objectPrototype s name = Some q \<longrightarrow>
         unique_approvals (own_fields q) \<and> proposals_ok (added q)) \<and>
      (\<forall>f. proposals_ok (functionProps s f)))"

definition inherited :: "coordinator \<Rightarrow> string \<Rightarrow> bool" where
  "inherited s name =
     (name = ''__proto__'' \<or> name \<in> set object_prototype_functions \<or>
      objectPrototype s name \<noteq> None)"


section \<open>A small store to evaluate on\<close>

text \<open>
  One wallet on chain 31337 with one proposal, as the first \<^verbatim>\<open>/propose\<close> of an empty
  coordinator leaves it, and the same after the proposer has signed. The strings are
  short stand-ins for addresses, digests and signatures.
\<close>

definition tx1 :: TransactionProposal where
  "tx1 = \<lparr>hash = ''0x01'', to = ''0xB0b'', value_str = ''500'', data = ''0x'', nonce = 0,
          proposer = Some ''0xA11ce'', signatures = []\<rparr>"

definition store1 :: coordinator where
  "store1 = initial\<lparr>multisigData := [''0xWa11et_31337'' \<mapsto> [''0x01'' \<mapsto> tx1]]\<rparr>"

definition tx2 :: TransactionProposal where
  "tx2 = tx1\<lparr>signatures := [\<lparr>signer = ''0xA11ce'', signature = ''0x5161''\<rparr>]\<rparr>"

definition store2 :: coordinator where
  "store2 = initial\<lparr>multisigData := [''0xWa11et_31337'' \<mapsto> [''0x01'' \<mapsto> tx2]]\<rparr>"

text \<open>
  The coordinator after one \<^verbatim>\<open>/propose\<close> whose address is \<^verbatim>\<open>_\<close> and whose chain is
  \<^verbatim>\<open>proto__\<close>: nothing is stored in \<^verbatim>\<open>multisigData\<close>, and \<^verbatim>\<open>Object.prototype\<close> has the
  proposal under its hash.
\<close>

definition polluted1 :: coordinator where
  "polluted1 = initial\<lparr>objectPrototype := [''0x01'' \<mapsto> \<lparr>own_fields = tx1, added = Map.empty\<rparr>]\<rparr>"

text \<open>The same after a \<^verbatim>\<open>/propose\<close> for the wallet, which the handler has answered 409.\<close>

definition polluted2 :: coordinator where
  "polluted2 = polluted1\<lparr>multisigData := [''0xWa11et_31337'' \<mapsto> Map.empty]\<rparr>"

section \<open>The pool page\<close>

text \<open>
  \<^verbatim>\<open>src/packages/nextjs/app/pool/page.tsx\<close>. An \<^verbatim>\<open>ExecuteTransaction\<close> event carries the
  nonce the wallet executed, a \<^verbatim>\<open>bigint\<close> that the event's type lets be \<^verbatim>\<open>undefined\<close>;
  \<^verbatim>\<open>eventsHistory\<close> itself is \<^verbatim>\<open>undefined\<close> until the events are loaded.
  \<^verbatim>\<open>lastExecutedNonce\<close> is the \<^verbatim>\<open>reduce\<close> over the events from \<^verbatim>\<open>-1n\<close>, in which
  \<^verbatim>\<open>event.args.nonce ? BigInt(event.args.nonce) : -1n\<close> tests the nonce for truthiness,
  and \<^verbatim>\<open>0n\<close> is falsy. \<open>outdated\<close> is the flag the page computes for a transaction.
\<close>

record ExecuteTransactionEvent =
  ev_hash :: string
  ev_nonce :: "int option"

definition eventNonce :: "ExecuteTransactionEvent \<Rightarrow> int" where
  "eventNonce event = (case ev_nonce event of None \<Rightarrow> - 1 | Some n \<Rightarrow> if n \<noteq> 0 then n else - 1)"

definition lastExecutedNonce :: "ExecuteTransactionEvent list option \<Rightarrow> int" where
  "lastExecutedNonce eventsHistory =
     (case eventsHistory of
        None \<Rightarrow> - 1
      | Some events \<Rightarrow>
          if length events = 0 then - 1
          else foldl (\<lambda>maxNonce event.
                  if eventNonce event > maxNonce then eventNonce event else maxNonce)
                (- 1) events)"

definition outdated :: "ExecuteTransactionEvent list option \<Rightarrow> int \<Rightarrow> bool" where
  "outdated eventsHistory tx_nonce =
     (lastExecutedNonce eventsHistory \<ge> 0 \<and> tx_nonce \<le> lastExecutedNonce eventsHistory)"

section \<open>The signature list for execution\<close>

text \<open>
  \<^verbatim>\<open>getSortedSigList\<close> of \<^verbatim>\<open>src/unnamed/part_001\<close>. The wallet contract is not part of
  the sources, so its \<^verbatim>\<open>recover(hash, signature)\<close> is a parameter; a call that reverts
  is \<open>None\<close>, and the \<^verbatim>\<open>await\<close> then throws out of the function. The contract
  answers with an \<^verbatim>\<open>address\<close>, a 160-bit value; the client holds it as its hexadecimal
  string, which \<^verbatim>\<open>BigInt\<close> reads back to the number.
\<close>

type_synonym address = "160 word"

definition BigInt :: "address \<Rightarrow> int" where
  "BigInt a = uint a"

record sigListEntry =
  sl_signature :: string
  sl_signer :: address

fun recover_all ::
  "(string \<Rightarrow> string \<Rightarrow> address option) \<Rightarrow> string \<Rightarrow> SignatureInfo list \<Rightarrow> sigListEntry list option" where
  "recover_all recover newHash [] = Some []"
| "recover_all recover newHash (sigInfo # rest) =
     (case recover newHash (signature sigInfo) of
        None \<Rightarrow> None
      | Some recoveredSigner \<Rightarrow>
          (case recover_all recover newHash rest of
             None \<Rightarrow> None
           | Some sigList \<Rightarrow>
               Some (\<lparr>sl_signature = signature sigInfo, sl_signer = recoveredSigner\<rparr> # sigList)))"

text \<open>
  \<^verbatim>\<open>sigList.sort((a, b) => BigInt(a.signer) > BigInt(b.signer) ? 1 : -1)\<close>. The sort of
  the array is insertion by the comparator, entry after entry: an entry goes before the
  first one it is not greater than. For two entries of one signer the comparator answers
  \<^verbatim>\<open>-1\<close> in both directions, and ECMAScript leaves their order to the engine; the
  properties proved of the result (ascending order, the signatures it holds, a signer
  held twice) are the same for either order.
\<close>

definition compareSigners :: "sigListEntry \<Rightarrow> sigListEntry \<Rightarrow> int" where
  "compareSigners a b = (if BigInt (sl_signer a) > BigInt (sl_signer b) then 1 else - 1)"

fun insert_by :: "('a \<Rightarrow> 'a \<Rightarrow> int) \<Rightarrow> 'a \<Rightarrow> 'a list \<Rightarrow> 'a list" where
  "insert_by cmp x [] = [x]"
| "insert_by cmp x (y # ys) = (if cmp x y > 0 then y # insert_by cmp x ys else x # y # ys)"

definition sort_by :: "('a \<Rightarrow> 'a \<Rightarrow> int) \<Rightarrow> 'a list \<Rightarrow> 'a list" where
  "sort_by cmp xs = foldl (\<lambda>sorted x. insert_by cmp x sorted) [] xs"

text \<open>
  The second loop keeps an entry when \<^verbatim>\<open>usedSignatures[signature]\<close> is falsy.
  \<^verbatim>\<open>usedSignatures\<close> is a plain object too: it has the names the loop has set to
  \<^verbatim>\<open>true\<close>, and it inherits the members of \<^verbatim>\<open>Object.prototype\<close>, all truthy.
  \<^verbatim>\<open>finalSigners\<close> is filled beside \<^verbatim>\<open>finalSigList\<close>, and only \<^verbatim>\<open>finalSigList\<close> is
  returned. \<open>sortedSigLists\<close> is the pair of the two arrays at the \<^verbatim>\<open>return\<close>.
\<close>

definition used :: "(string \<rightharpoonup> bool) \<Rightarrow> string \<Rightarrow> bool" where
  "used usedSignatures sig =
     (case usedSignatures sig of
        Some b \<Rightarrow> b
      | None \<Rightarrow> sig = ''__proto__'' \<or> sig \<in> set object_prototype_functions)"

fun dedupe ::
  "sigListEntry list \<Rightarrow> (string \<rightharpoonup> bool) \<Rightarrow> string list \<Rightarrow> address list \<Rightarrow> string list \<times> address list" where
  "dedupe [] usedSignatures finalSigList finalSigners = (finalSigList, finalSigners)"
| "dedupe (sortedSigInfo # rest) usedSignatures finalSigList finalSigners =
     (if \<not> used usedSignatures (sl_signature sortedSigInfo)
      then dedupe rest (usedSignatures(sl_signature sortedSigInfo \<mapsto> True))
             (finalSigList @ [sl_signature sortedSigInfo])
             (finalSigners @ [sl_signer sortedSigInfo])
      else dedupe rest usedSignatures finalSigList finalSigners)"

definition sortedSigLists ::
  "(string \<Rightarrow> string \<Rightarrow> address option) \<Rightarrow> SignatureInfo list \<Rightarrow> string \<Rightarrow> (string list \<times> address list) option" where
  "sortedSigLists recover allSigs newHash =
     (case recover_all recover newHash allSigs of
        None \<Rightarrow> None
      | Some sigList \<Rightarrow> Some (dedupe (sort_by compareSigners sigList) Map.empty [] []))"

definition getSortedSigList ::
  "(string \<Rightarrow> string \<Rightarrow> address option) \<Rightarrow> SignatureInfo list \<Rightarrow> string \<Rightarrow> string list option" where
  "getSortedSigList recover allSigs newHash = map_option fst (sortedSigLists recover allSigs newHash)"

text \<open>Strictly ascending numeric order of identities, as the wallet contract asks.\<close>

definition strictly_ascending :: "address list \<Rightarrow> bool" where
  "strictly_ascending signers = sorted_wrt (\<lambda>a b. BigInt a < BigInt b) signers"

text \<open>
  A \<^verbatim>\<open>recover\<close> to evaluate with, and three collected approvals, two of which carry one
  signature in two spellings of its hexadecimal digits (shortened here): one byte string
  for the contract, and so one recovered signer. The coordinator takes both, since their
  claimed signers differ.
\<close>

definition recover_two_spellings :: "string \<Rightarrow> string \<Rightarrow> address option" where
  "recover_two_spellings h sg =
     (if sg = ''0xab01'' \<or> sg = ''0xAB01'' then Some 5
      else if sg = ''0xcd02'' then Some 3 else None)"

definition sigs_two_spellings :: "SignatureInfo list" where
  "sigs_two_spellings =
     [\<lparr>signer = ''0xA11ce'', signature = ''0xab01''\<rparr>,
      \<lparr>signer = ''0xB0b'', signature = ''0xcd02''\<rparr>,
      \<lparr>signer = ''0xCar01'', signature = ''0xAB01''\<rparr>]"

section \<open>How the handlers answer\<close>

lemma lookup_upd: "lookup (m(key \<mapsto> e)) k h = (if k = key then e h else lookup m k h)"
  by (simp add: lookup_def)

lemma find_claimed:
  "find (\<lambda>sigInfo. toLowerCase (signer sigInfo) = toLowerCase who) (signatures p) = None
     \<longleftrightarrow> \<not> claimed p who"
  by (force simp add: claimed_def find_None_iff)

lemma legacy_of_inherited: "legacy_of name = Some f \<Longrightarrow> name \<in> set object_prototype_functions"
  by (auto simp add: legacy_of_def object_prototype_functions_def split: if_splits)

lemma at_own: "multisigData s key = Some entries \<Longrightarrow> multisigData_at s key = Some (Entries entries)"
  by (simp add: multisigData_at_def)

lemma at_nothing:
  "multisigData s key = None \<Longrightarrow> \<not> inherited s key \<Longrightarrow> multisigData_at s key = None"
  using legacy_of_inherited [of key]
  by (cases "legacy_of key") (auto simp add: multisigData_at_def inherited_def)

lemma not_inherited_undefined:
  "\<not> inherited s name \<Longrightarrow> from_object_prototype s v name = Undefined"
  by (auto simp add: from_object_prototype_def inherited_def)

lemma at_not_inherited:
  "\<not> inherited s key \<Longrightarrow> multisigData_at s key = map_option Entries (multisigData s key)"
  by (cases "multisigData s key") (simp_all add: at_own at_nothing)

lemma at_entries:
  "multisigData_at s key = Some (Entries e) \<longleftrightarrow> multisigData s key = Some e"
  by (auto simp add: multisigData_at_def split: option.splits)

lemma at_nothing_stored: "multisigData_at s key = None \<Longrightarrow> multisigData s key = None"
  by (auto simp add: multisigData_at_def split: option.splits)

lemma at_other_stored:
  "multisigData_at s key = Some t \<Longrightarrow> (\<And>e. t \<noteq> Entries e) \<Longrightarrow> multisigData s key = None"
  by (cases "multisigData s key") (auto simp add: multisigData_at_def)

lemma propose_rejects: "propose_invalid b \<Longrightarrow> propose s b = Inr (s, missing_proposal)"
  by (simp add: propose_def split: option.splits prod.splits)

lemma sign_rejects: "sign_invalid b \<Longrightarrow> sign s b = Inr (s, missing_signing)"
  by (simp add: sign_def split: option.splits prod.splits)

lemma propose_body_cases:
  "propose_invalid b \<or> (\<exists>address chainId h t v d n pr.
      address \<noteq> [] \<and> \<not> falsy_scalar (Some chainId) \<and> h \<noteq> [] \<and> t \<noteq> [] \<and>
      b = propose_request address chainId h t v d n pr)"
proof (cases "propose_invalid b")
  case True then show ?thesis by simp
next
  case False
  then obtain address chainId h t v d n where f:
    "pb_address b = Some address" "pb_chainId b = Some chainId" "pb_hash b = Some h"
    "pb_to b = Some t" "pb_value b = Some v" "pb_data b = Some d" "pb_nonce b = Some n"
    by (cases "pb_address b"; cases "pb_chainId b"; cases "pb_hash b"; cases "pb_to b";
        cases "pb_value b"; cases "pb_data b"; cases "pb_nonce b")
       (auto simp add: propose_invalid_def)
  with False have "address \<noteq> [] \<and> \<not> falsy_scalar (Some chainId) \<and> h \<noteq> [] \<and> t \<noteq> []"
    by (simp add: propose_invalid_def)
  moreover from f have "b = propose_request address chainId h t v d n (pb_proposer b)"
    by (simp add: propose_request_def)
  ultimately show ?thesis by blast
qed

lemma sign_body_cases:
  "sign_invalid b \<or> (\<exists>address chainId h who sg.
      address \<noteq> [] \<and> \<not> falsy_scalar (Some chainId) \<and> h \<noteq> [] \<and> who \<noteq> [] \<and> sg \<noteq> [] \<and>
      b = sign_request address chainId h who sg)"
proof (cases "sign_invalid b")
  case True then show ?thesis by simp
next
  case False
  then obtain address chainId h who sg where f:
    "sb_address b = Some address" "sb_chainId b = Some chainId" "sb_hash b = Some h"
    "sb_signer b = Some who" "sb_signature b = Some sg"
    by (cases "sb_address b"; cases "sb_chainId b"; cases "sb_hash b"; cases "sb_signer b";
        cases "sb_signature b")
       (auto simp add: sign_invalid_def)
  with False have "address \<noteq> [] \<and> \<not> falsy_scalar (Some chainId) \<and> h \<noteq> [] \<and> who \<noteq> [] \<and> sg \<noteq> []"
    by (simp add: sign_invalid_def)
  moreover from f have "b = sign_request address chainId h who sg"
    by (simp add: sign_request_def)
  ultimately show ?thesis by blast
qed

lemma key_of_propose_request:
  "pb_key (propose_request address chainId h t v d n pr) = Some (multisigKey address (toStr chainId))"
  "pb_hash (propose_request address chainId h t v d n pr) = Some h"
  by (simp_all add: pb_key_def propose_request_def)

lemma key_of_sign_request:
  "sb_key (sign_request address chainId h who sg) = Some (multisigKey address (toStr chainId))"
  "sb_hash (sign_request address chainId h who sg) = Some h"
  by (simp_all add: sb_key_def sign_request_def)

lemma propose_run:
  assumes "address \<noteq> []" "\<not> falsy_scalar (Some chainId)" "h \<noteq> []" "t \<noteq> []"
  shows "propose s (propose_request address chainId h t v d n pr) =
     (let key = multisigKey address (toStr chainId);
          s1 = (case multisigData_at s key of
                  None \<Rightarrow> s\<lparr>multisigData := (multisigData s)(key \<mapsto> Map.empty)\<rparr>
                | Some t \<Rightarrow> s);
          tg = (case multisigData_at s key of None \<Rightarrow> Entries Map.empty | Some t \<Rightarrow> t)
      in case member s1 tg h of
           Inl e \<Rightarrow> Inl e
         | Inr existing \<Rightarrow>
             if truthy existing then
               Inr (s1, \<lparr>status = 409,
                         body = ConflictBody ''Proposal with this hash already exists.'' existing\<rparr>)
             else
               (let newProposal =
                  \<lparr>hash = h, to = t, value_str = toStr v, data = d, nonce = n, proposer = pr,
                   signatures = []\<rparr>
                in case store_new s1 key tg h newProposal of
                     Inl e \<Rightarrow> Inl e
                   | Inr s2 \<Rightarrow> Inr (s2, \<lparr>status = 201, body = ValueBody (JProposal newProposal)\<rparr>)))"
  using assms
  by (simp add: propose_def propose_request_def propose_invalid_def Let_def
      cong: option.case_cong sum.case_cong if_cong)

lemma propose_run_some:
  assumes "address \<noteq> []" "\<not> falsy_scalar (Some chainId)" "h \<noteq> []" "t \<noteq> []"
    and "multisigData_at s (multisigKey address (toStr chainId)) = Some tg"
  shows "propose s (propose_request address chainId h t v d n pr) =
     (case member s tg h of
        Inl e \<Rightarrow> Inl e
      | Inr existing \<Rightarrow>
          if truthy existing then
            Inr (s, \<lparr>status = 409,
                     body = ConflictBody ''Proposal with this hash already exists.'' existing\<rparr>)
          else
            (case store_new s (multisigKey address (toStr chainId)) tg h
                    \<lparr>hash = h, to = t, value_str = toStr v, data = d, nonce = n, proposer = pr,
                     signatures = []\<rparr> of
               Inl e \<Rightarrow> Inl e
             | Inr s2 \<Rightarrow>
                 Inr (s2, \<lparr>status = 201,
                           body = ValueBody (JProposal
                             \<lparr>hash = h, to = t, value_str = toStr v, data = d, nonce = n,
                              proposer = pr, signatures = []\<rparr>)\<rparr>)))"
  using assms(5)
  by (simp add: propose_run [OF assms(1-4)] Let_def
      cong: option.case_cong sum.case_cong if_cong)

lemma propose_run_none:
  assumes "address \<noteq> []" "\<not> falsy_scalar (Some chainId)" "h \<noteq> []" "t \<noteq> []"
    and "multisigData_at s (multisigKey address (toStr chainId)) = None"
  shows "propose s (propose_request address chainId h t v d n pr) =
     (if truthy (from_object_prototype s ObjectPrototype h) then
        Inr (s\<lparr>multisigData := (multisigData s)(multisigKey address (toStr chainId) \<mapsto> Map.empty)\<rparr>,
             \<lparr>status = 409,
              body = ConflictBody ''Proposal with this hash already exists.''
                       (from_object_prototype s ObjectPrototype h)\<rparr>)
      else
        Inr (s\<lparr>multisigData := (multisigData s)(multisigKey address (toStr chainId) \<mapsto>
                 [h \<mapsto> \<lparr>hash = h, to = t, value_str = toStr v, data = d, nonce = n,
                         proposer = pr, signatures = []\<rparr>])\<rparr>,
             \<lparr>status = 201,
              body = ValueBody (JProposal
                \<lparr>hash = h, to = t, value_str = toStr v, data = d, nonce = n,
                 proposer = pr, signatures = []\<rparr>)\<rparr>))"
  using assms(5)
  by (simp add: propose_run [OF assms(1-4)] Let_def from_object_prototype_def
      cong: option.case_cong sum.case_cong if_cong)

lemma sign_run_none:
  assumes "address \<noteq> []" "\<not> falsy_scalar (Some chainId)" "h \<noteq> []" "who \<noteq> []" "sg \<noteq> []"
    and "multisigData_at s (multisigKey address (toStr chainId)) = None"
  shows "sign s (sign_request address chainId h who sg) =
     Inr (s, \<lparr>status = 404,
              body = ErrorBody ''Multisig contract not found in backend storage.''\<rparr>)"
  using assms
  by (simp add: sign_def sign_request_def sign_invalid_def Let_def)

lemma sign_run_some:
  assumes "address \<noteq> []" "\<not> falsy_scalar (Some chainId)" "h \<noteq> []" "who \<noteq> []" "sg \<noteq> []"
    and "multisigData_at s (multisigKey address (toStr chainId)) = Some tg"
  shows "sign s (sign_request address chainId h who sg) =
     (case member s tg h of
        Inl e \<Rightarrow> Inl e
      | Inr proposal \<Rightarrow>
          if \<not> truthy proposal then
            Inr (s, \<lparr>status = 404,
                     body = ErrorBody ''Proposal with the given hash not found.''\<rparr>)
          else
            (case signatures_of proposal of
               None \<Rightarrow> Inl TypeError
             | Some sigs \<Rightarrow>
                (case find (\<lambda>sigInfo. toLowerCase (signer sigInfo) = toLowerCase who) sigs of
                   Some existingSignature \<Rightarrow>
                     Inr (s, \<lparr>status = 409,
                              body = ConflictBody
                                ''Signer has already signed this proposal.'' proposal\<rparr>)
                 | None \<Rightarrow>
                     Inr (store_signatures s (multisigKey address (toStr chainId)) tg h proposal
                            (sigs @ [\<lparr>signer = who, signature = sg\<rparr>]),
                          \<lparr>status = 200,
                           body = ValueBody (with_signatures proposal
                             (sigs @ [\<lparr>signer = who, signature = sg\<rparr>]))\<rparr>))))"
  using assms
  by (simp add: sign_def sign_request_def sign_invalid_def Let_def
      cong: option.case_cong sum.case_cong if_cong)

lemma propose_fresh:
  assumes "address \<noteq> []" "\<not> falsy_scalar (Some chainId)" "h \<noteq> []" "t \<noteq> []"
    and "\<not> inherited s (multisigKey address (toStr chainId))" and "\<not> inherited s h"
    and "lookup (multisigData s) (multisigKey address (toStr chainId)) h = None"
  shows "propose s (propose_request address chainId h t v d n pr) =
     (let key = multisigKey address (toStr chainId);
          p = \<lparr>hash = h, to = t, value_str = toStr v, data = d, nonce = n, proposer = pr, signatures = []\<rparr>
      in Inr (s\<lparr>multisigData := (multisigData s)
                   (key \<mapsto> (case multisigData s key of None \<Rightarrow> Map.empty | Some e \<Rightarrow> e)(h \<mapsto> p))\<rparr>,
              \<lparr>status = 201, body = ValueBody (JProposal p)\<rparr>))"
proof (cases "multisigData s (multisigKey address (toStr chainId))")
  case None
  with assms(5) have "multisigData_at s (multisigKey address (toStr chainId)) = None"
    by (simp add: at_nothing)
  from propose_run_none [OF assms(1-4) this] None assms(6) show ?thesis
    by (simp add: not_inherited_undefined Let_def)
next
  case (Some e)
  then have "multisigData_at s (multisigKey address (toStr chainId)) = Some (Entries e)"
    by (simp add: at_own)
  from propose_run_some [OF assms(1-4) this] Some assms(6,7) show ?thesis
    by (simp add: not_inherited_undefined lookup_def Let_def)
qed

lemma propose_existing:
  assumes "address \<noteq> []" "\<not> falsy_scalar (Some chainId)" "h \<noteq> []" "t \<noteq> []"
    and "lookup (multisigData s) (multisigKey address (toStr chainId)) h = Some existing"
  shows "propose s (propose_request address chainId h t v d n pr) =
     Inr (s, \<lparr>status = 409,
              body = ConflictBody ''Proposal with this hash already exists.'' (JProposal existing)\<rparr>)"
proof -
  from assms(5) obtain e where e: "multisigData s (multisigKey address (toStr chainId)) = Some e"
      "e h = Some existing"
    by (auto simp add: lookup_def split: option.splits)
  then have "multisigData_at s (multisigKey address (toStr chainId)) = Some (Entries e)"
    by (simp add: at_own)
  from propose_run_some [OF assms(1-4) this] e show ?thesis
    by simp
qed

lemma sign_unknown:
  assumes "address \<noteq> []" "\<not> falsy_scalar (Some chainId)" "h \<noteq> []" "who \<noteq> []" "sg \<noteq> []"
    and "\<not> inherited s (multisigKey address (toStr chainId))" and "\<not> inherited s h"
    and "lookup (multisigData s) (multisigKey address (toStr chainId)) h = None"
  shows "sign s (sign_request address chainId h who sg) =
     Inr (s, \<lparr>status = 404,
          body = ErrorBody (if multisigData s (multisigKey address (toStr chainId)) = None
                            then ''Multisig contract not found in backend storage.''
                            else ''Proposal with the given hash not found.'')\<rparr>)"
proof (cases "multisigData s (multisigKey address (toStr chainId))")
  case None
  with assms(6) have "multisigData_at s (multisigKey address (toStr chainId)) = None"
    by (simp add: at_nothing)
  from sign_run_none [OF assms(1-5) this] None show ?thesis
    by simp
next
  case (Some e)
  then have "multisigData_at s (multisigKey address (toStr chainId)) = Some (Entries e)"
    by (simp add: at_own)
  from sign_run_some [OF assms(1-5) this] Some assms(7,8) show ?thesis
    by (simp add: not_inherited_undefined lookup_def)
qed

lemma sign_claimed:
  assumes "address \<noteq> []" "\<not> falsy_scalar (Some chainId)" "h \<noteq> []" "who \<noteq> []" "sg \<noteq> []"
    and "lookup (multisigData s) (multisigKey address (toStr chainId)) h = Some p" and "claimed p who"
  shows "sign s (sign_request address chainId h who sg) =
     Inr (s, \<lparr>status = 409,
              body = ConflictBody ''Signer has already signed this proposal.'' (JProposal p)\<rparr>)"
proof -
  from assms(6) obtain e where e: "multisigData s (multisigKey address (toStr chainId)) = Some e"
      "e h = Some p"
    by (auto simp add: lookup_def split: option.splits)
  then have a: "multisigData_at s (multisigKey address (toStr chainId)) = Some (Entries e)"
    by (simp add: at_own)
  from assms(7) obtain x where
    "find (\<lambda>sigInfo. toLowerCase (signer sigInfo) = toLowerCase who) (signatures p) = Some x"
    using find_claimed [of who p]
    by (cases "find (\<lambda>sigInfo. toLowerCase (signer sigInfo) = toLowerCase who) (signatures p)") auto
  with sign_run_some [OF assms(1-5) a] e show ?thesis
    by simp
qed

lemma sign_appends:
  assumes "address \<noteq> []" "\<not> falsy_scalar (Some chainId)" "h \<noteq> []" "who \<noteq> []" "sg \<noteq> []"
    and "multisigData s (multisigKey address (toStr chainId)) = Some entries" and "entries h = Some p"
    and "\<not> claimed p who"
  shows "sign s (sign_request address chainId h who sg) =
     (let p1 = p\<lparr>signatures := signatures p @ [\<lparr>signer = who, signature = sg\<rparr>]\<rparr>
      in Inr (s\<lparr>multisigData := (multisigData s)
                  (multisigKey address (toStr chainId) \<mapsto> entries(h \<mapsto> p1))\<rparr>,
              \<lparr>status = 200, body = ValueBody (JProposal p1)\<rparr>))"
proof -
  from assms(6) have a: "multisigData_at s (multisigKey address (toStr chainId)) = Some (Entries entries)"
    by (simp add: at_own)
  from assms(8) have
    "find (\<lambda>sigInfo. toLowerCase (signer sigInfo) = toLowerCase who) (signatures p) = None"
    by (simp add: find_claimed)
  with sign_run_some [OF assms(1-5) a] assms(7) show ?thesis
    by (simp add: Let_def)
qed

subsection \<open>Names that no object inherits\<close>

lemma hex_not_inherited:
  "take 2 name = ''0x'' \<Longrightarrow> objectPrototype s = Map.empty \<Longrightarrow> \<not> inherited s name"
  by (auto simp add: inherited_def object_prototype_functions_def)

lemma hex_key: "take 2 address = ''0x'' \<Longrightarrow> take 2 (multisigKey address chainId) = ''0x''"
  by (cases address; cases "tl address") (auto simp add: multisigKey_def)

subsection \<open>The small store\<close>

lemma key1: "multisigKey ''0xWa11et'' (toStr (Num 31337)) = ''0xWa11et_31337''"
  by (simp add: multisigKey_def show_int_def show_nat.simps)

lemma store1_clean: "\<not> inherited store1 ''0xWa11et_31337''" "\<not> inherited store1 ''0x01''"
    "\<not> inherited store1 ''0x02''" "\<not> inherited store1 ''0x99''"
  by (simp_all add: hex_not_inherited store1_def initial_def)

lemma store2_clean: "\<not> inherited store2 ''0xWa11et_31337''" "\<not> inherited store2 ''0x01''"
  by (simp_all add: hex_not_inherited store2_def initial_def)

lemma initial_clean: "\<not> inherited initial ''0xWa11et_31337''" "\<not> inherited initial ''0x01''"
  by (simp_all add: hex_not_inherited initial_def)

lemma lookup_initial: "lookup (multisigData initial) key h = None"
  by (simp add: lookup_def initial_def)

lemma lookup_store1:
  "lookup (multisigData store1) ''0xWa11et_31337'' h = (if h = ''0x01'' then Some tx1 else None)"
  by (simp add: lookup_def store1_def)

lemma lookup_store2:
  "lookup (multisigData store2) ''0xWa11et_31337'' h = (if h = ''0x01'' then Some tx2 else None)"
  by (simp add: lookup_def store2_def)

lemmas run_defs =
  propose_def propose_request_def propose_invalid_def sign_def sign_request_def sign_invalid_def
  get_proposals_def multisigKey_def multisigData_at_def legacy_of_def from_object_prototype_def
  object_prototype_functions_def function_prototype_functions_def own_field_def
  show_int_def show_nat.simps toLowerCase_def lower_char_def Let_def

lemma store1_made:
  "propose initial
         (propose_request ''0xWa11et'' (Num 31337) ''0x01'' ''0xB0b'' (Num 500) ''0x'' 0
            (Some ''0xA11ce'')) = Inr (store1, \<lparr>status = 201, body = ValueBody (JProposal tx1)\<rparr>)"
  by (simp add: run_defs store1_def tx1_def initial_def)

lemma store2_made:
  "sign store1 (sign_request ''0xWa11et'' (Num 31337) ''0x01'' ''0xA11ce'' ''0x5161'') =
     Inr (store2, \<lparr>status = 200, body = ValueBody (JProposal tx2)\<rparr>)"
  by (simp add: run_defs store1_def store2_def tx1_def tx2_def initial_def)

lemma tx1_unclaimed: "\<not> claimed tx1 who"
  by (simp add: claimed_def tx1_def)

lemma tx2_claimed: "claimed tx2 ''0xa11CE''"
  by (simp add: claimed_def tx2_def tx1_def toLowerCase_def lower_char_def)

lemma tx2_unclaimed: "\<not> claimed tx2 ''0xB0b''"
  by (simp add: claimed_def tx2_def tx1_def toLowerCase_def lower_char_def)

subsection \<open>What a request stores\<close>

lemma store_new_stored:
  "store_new s key t h p = Inr s2 \<Longrightarrow>
   multisigData s2 =
     (case t of Entries e \<Rightarrow> (multisigData s)(key \<mapsto> e(h \<mapsto> p)) | _ \<Rightarrow> multisigData s)"
  by (cases t) (auto split: if_splits)

lemma store_signatures_stored:
  "multisigData (store_signatures s key t h v sigs) =
     (case (t, v) of
        (Entries e, JProposal p) \<Rightarrow> (multisigData s)(key \<mapsto> e(h \<mapsto> p\<lparr>signatures := sigs\<rparr>))
      | _ \<Rightarrow> multisigData s)"
  by (cases t; cases v) simp_all

lemma member_entries_proposal:
  "member s (Entries e) h = Inr (JProposal p) \<Longrightarrow> e h = Some p"
  by (auto simp add: from_object_prototype_def split: option.splits if_splits)

lemma propose_stored:
  assumes "propose s b = Inr (s', r)"
  shows "multisigData s' = multisigData s \<or>
    (\<exists>key. pb_key b = Some key \<and> multisigData s key = None \<and>
       multisigData s' = (multisigData s)(key \<mapsto> Map.empty)) \<or>
    (\<exists>key h p. pb_key b = Some key \<and> pb_hash b = Some h \<and>
       lookup (multisigData s) key h = None \<and> signatures p = [] \<and>
       multisigData s' =
         (multisigData s)(key \<mapsto> (case multisigData s key of None \<Rightarrow> Map.empty | Some e \<Rightarrow> e)(h \<mapsto> p)))"
proof -
  from propose_body_cases [of b] show ?thesis
  proof
    assume "propose_invalid b"
    with assms show ?thesis by (simp add: propose_rejects)
  next
    assume "\<exists>address chainId h t v d n pr.
      address \<noteq> [] \<and> \<not> falsy_scalar (Some chainId) \<and> h \<noteq> [] \<and> t \<noteq> [] \<and>
      b = propose_request address chainId h t v d n pr"
    then obtain address chainId h t v d n pr where
      ok: "address \<noteq> []" "\<not> falsy_scalar (Some chainId)" "h \<noteq> []" "t \<noteq> []"
      and b: "b = propose_request address chainId h t v d n pr"
      by blast
    let ?key = "multisigKey address (toStr chainId)"
    let ?new = "\<lparr>hash = h, to = t, value_str = toStr v, data = d, nonce = n, proposer = pr,
                 signatures = []\<rparr>"
    from b have k: "pb_key b = Some ?key" "pb_hash b = Some h"
      by (simp_all add: key_of_propose_request)
    show ?thesis
    proof (cases "multisigData_at s ?key")
      case None
      then have st: "multisigData s ?key = None"
        by (rule at_nothing_stored)
      note run = propose_run_none [OF ok None, of v d n pr]
      show ?thesis
      proof (cases "truthy (from_object_prototype s ObjectPrototype h)")
        case True
        with run assms b have "multisigData s' = (multisigData s)(?key \<mapsto> Map.empty)"
          by auto
        with st k show ?thesis
          by auto
      next
        case False
        with run assms b have "multisigData s' = (multisigData s)(?key \<mapsto> [h \<mapsto> ?new])"
          by auto
        with st k show ?thesis
          by (intro disjI2 exI [of _ ?key] exI [of _ h] exI [of _ ?new]) (simp add: lookup_def)
      qed
    next
      case (Some tg)
      note run = propose_run_some [OF ok Some, of v d n pr]
      from run assms b obtain existing where m: "member s tg h = Inr existing"
        by (cases "member s tg h") auto
      show ?thesis
      proof (cases "truthy existing")
        case True
        with run m assms b have "s' = s" by simp
        then show ?thesis by simp
      next
        case False
        with run m assms b have sn: "store_new s ?key tg h ?new = Inr s'"
          by (cases "store_new s ?key tg h ?new") auto
        show ?thesis
        proof (cases tg)
          case (Entries e)
          with Some have st: "multisigData s ?key = Some e"
            by (simp add: at_entries)
          from Entries m False have "e h = None"
            by (cases "e h") auto
          with st have "lookup (multisigData s) ?key h = None"
            by (simp add: lookup_def)
          moreover from store_new_stored [OF sn] Entries st have "multisigData s' =
              (multisigData s)(?key \<mapsto> (case multisigData s ?key of None \<Rightarrow> Map.empty | Some e \<Rightarrow> e)(h \<mapsto> ?new))"
            by simp
          ultimately show ?thesis
            using k by (intro disjI2 exI [of _ ?key] exI [of _ h] exI [of _ ?new]) simp
        next
          case TheObjectPrototype
          with store_new_stored [OF sn] have "multisigData s' = multisigData s"
            by simp
          then show ?thesis by simp
        next
          case (TheFunction f)
          with store_new_stored [OF sn] have "multisigData s' = multisigData s"
            by simp
          then show ?thesis by simp
        next
          case (PollutedObject q)
          with store_new_stored [OF sn] have "multisigData s' = multisigData s"
            by simp
          then show ?thesis by simp
        qed
      qed
    qed
  qed
qed

lemma sign_stored:
  assumes "sign s b = Inr (s', r)"
  shows "multisigData s' = multisigData s \<or>
   (\<exists>key entries h p who sg. sb_key b = Some key \<and> sb_hash b = Some h \<and>
      multisigData s key = Some entries \<and> entries h = Some p \<and> \<not> claimed p who \<and>
      multisigData s' =
        (multisigData s)(key \<mapsto> entries(h \<mapsto> p\<lparr>signatures := signatures p @ [\<lparr>signer = who, signature = sg\<rparr>]\<rparr>)))"
proof -
  from sign_body_cases [of b] show ?thesis
  proof
    assume "sign_invalid b"
    with assms show ?thesis by (simp add: sign_rejects)
  next
    assume "\<exists>address chainId h who sg.
      address \<noteq> [] \<and> \<not> falsy_scalar (Some chainId) \<and> h \<noteq> [] \<and> who \<noteq> [] \<and> sg \<noteq> [] \<and>
      b = sign_request address chainId h who sg"
    then obtain address chainId h who sg where
      ok: "address \<noteq> []" "\<not> falsy_scalar (Some chainId)" "h \<noteq> []" "who \<noteq> []" "sg \<noteq> []"
      and b: "b = sign_request address chainId h who sg"
      by blast
    let ?key = "multisigKey address (toStr chainId)"
    from b have k: "sb_key b = Some ?key" "sb_hash b = Some h"
      by (simp_all add: key_of_sign_request)
    show ?thesis
    proof (cases "multisigData_at s ?key")
      case None
      from sign_run_none [OF ok None] assms b show ?thesis by simp
    next
      case (Some tg)
      note run = sign_run_some [OF ok Some]
      from run assms b obtain proposal where m: "member s tg h = Inr proposal"
        by (cases "member s tg h") auto
      show ?thesis
      proof (cases "truthy proposal")
        case False
        with m run assms b show ?thesis by simp
      next
        case True
        with m run assms b obtain sigs where sg: "signatures_of proposal = Some sigs"
          by (cases "signatures_of proposal") auto
        show ?thesis
        proof (cases "find (\<lambda>sigInfo. toLowerCase (signer sigInfo) = toLowerCase who) sigs")
          case (Some x)
          with m True sg run assms b show ?thesis by simp
        next
          case None
          with m True sg run assms b
          have s': "s' = store_signatures s ?key tg h proposal (sigs @ [\<lparr>signer = who, signature = sg\<rparr>])"
            by simp
          show ?thesis
          proof (cases "\<exists>e p. tg = Entries e \<and> proposal = JProposal p")
            case True
            then obtain e p where tp: "tg = Entries e" "proposal = JProposal p"
              by blast
            with \<open>multisigData_at s ?key = Some tg\<close> have st: "multisigData s ?key = Some e"
              by (simp add: at_entries)
            from tp m have eh: "e h = Some p"
              by (simp add: member_entries_proposal)
            from tp sg have sp: "sigs = signatures p" by simp
            with None have "\<not> claimed p who"
              by (simp add: find_claimed)
            moreover from s' tp sp have "multisigData s' =
                (multisigData s)(?key \<mapsto> e(h \<mapsto> p\<lparr>signatures := signatures p @ [\<lparr>signer = who, signature = sg\<rparr>]\<rparr>))"
              by (simp add: store_signatures_stored)
            ultimately show ?thesis
              using k st eh by blast
          next
            case False
            with s' have "multisigData s' = multisigData s"
              by (cases tg; cases proposal) (simp_all add: store_signatures_stored)
            then show ?thesis by simp
          qed
        qed
      qed
    qed
  qed
qed

lemma get_proposals_state: "get_proposals s address chainId = Inr (s', r) \<Longrightarrow> s' = s"
  by (auto simp add: get_proposals_def Let_def split: option.splits target.splits)

section \<open>Listing\<close>

lemma list_answers:
  "(\<not> inherited s (multisigKey address chainId) \<longrightarrow>
      get_proposals s address chainId =
        Inr (s, \<lparr>status = 200,
                 body = ValueBody (JEntries (case multisigData s (multisigKey address chainId) of
                                               Some entries \<Rightarrow> entries
                                             | None \<Rightarrow> Map.empty))\<rparr>)) \<and>
   (get_proposals s address chainId = Inr (s', r) \<longrightarrow> s' = s \<and> status r = 200)"
proof (intro conjI impI)
  assume "\<not> inherited s (multisigKey address chainId)"
  then have "multisigData_at s (multisigKey address chainId) =
      map_option Entries (multisigData s (multisigKey address chainId))"
    by (rule at_not_inherited)
  then show "get_proposals s address chainId =
      Inr (s, \<lparr>status = 200,
               body = ValueBody (JEntries (case multisigData s (multisigKey address chainId) of
                                             Some entries \<Rightarrow> entries
                                           | None \<Rightarrow> Map.empty))\<rparr>)"
    by (cases "multisigData s (multisigKey address chainId)") (simp_all add: get_proposals_def)
next
  assume "get_proposals s address chainId = Inr (s', r)"
  then show "s' = s" and "status r = 200"
    by (auto simp add: get_proposals_def Let_def split: option.splits target.splits)
qed

lemma list_answers_example:
  "get_proposals initial ''0xWa11et'' ''31337'' =
     Inr (initial, \<lparr>status = 200, body = ValueBody (JEntries Map.empty)\<rparr>) \<and>
   get_proposals store1 ''0xWa11et'' ''31337'' =
     Inr (store1, \<lparr>status = 200, body = ValueBody (JEntries [''0x01'' \<mapsto> tx1])\<rparr>)"
proof -
  have k: "multisigKey ''0xWa11et'' ''31337'' = ''0xWa11et_31337''"
    by (simp add: multisigKey_def)
  from list_answers [of initial "''0xWa11et''" "''31337''"]
    list_answers [of store1 "''0xWa11et''" "''31337''"]
    initial_clean(1) store1_clean(1)
  show ?thesis
    by (simp add: k initial_def store1_def)
qed

lemma list_object_prototype:
  "get_proposals initial ''_'' ''proto__'' =
     Inr (initial, \<lparr>status = 200, body = ValueBody ObjectPrototype\<rparr>)"
  by (simp add: get_proposals_def multisigKey_def multisigData_at_def initial_def)

text \<open>
  C9. The claim: listing a key that the coordinator has never seen answers 200 with an
  empty collection, and listing fails for no key, known or unknown. The handler does so
  for every key that is not an inherited name (\<open>list_answers\<close> above). For a key that
  names a function of \<^verbatim>\<open>Object.prototype\<close> it does not: before any other request,
  \<^verbatim>\<open>GET /proposals/_/defineGetter__\<close> asks for the key \<^verbatim>\<open>__defineGetter__\<close>, under which
  nothing is stored; \<^verbatim>\<open>multisigData[key]\<close> is the inherited function, the handler gives
  it to \<^verbatim>\<open>res.send\<close> where the claim, and the handler's own comment (\<^verbatim>\<open>or empty object
  if none\<close>), have \<^verbatim>\<open>{}\<close>, and the request ends in an exception.
\<close>

theorem list_of_inherited_name_throws:
  "multisigKey ''_'' ''defineGetter__'' = ''__defineGetter__'' \<and>
   multisigData initial ''__defineGetter__'' = None \<and>
   multisigData_at initial ''__defineGetter__'' = Some (TheFunction DefineGetter) \<and>
   get_proposals initial ''_'' ''defineGetter__'' = Inl TypeError"
  by (simp add: run_defs initial_def)

section \<open>Malformed requests\<close>



section \<open>Proposing\<close>

lemma propose_creates_once:
  assumes "address \<noteq> []" and "\<not> falsy_scalar (Some chainId)" and "h \<noteq> []" and "t \<noteq> []"
    and "t' \<noteq> []"
    and "key = multisigKey address (toStr chainId)"
    and "p = \<lparr>hash = h, to = t, value_str = toStr v, data = d, nonce = n, proposer = pr,
               signatures = []\<rparr>"
    and "s1 = s\<lparr>multisigData := (multisigData s)
                  (key \<mapsto> (case multisigData s key of None \<Rightarrow> Map.empty | Some e \<Rightarrow> e)(h \<mapsto> p))\<rparr>"
  shows "(lookup (multisigData s) key h = None \<and> \<not> inherited s key \<and> \<not> inherited s h \<longrightarrow>
            propose s (propose_request address chainId h t v d n pr) =
              Inr (s1, \<lparr>status = 201, body = ValueBody (JProposal p)\<rparr>) \<and>
            lookup (multisigData s1) key h = Some p \<and>
            propose s1 (propose_request address chainId h t' v' d' n' pr') =
              Inr (s1, \<lparr>status = 409,
                        body = ConflictBody ''Proposal with this hash already exists.''
                                 (JProposal p)\<rparr>)) \<and>
         (lookup (multisigData s) key h = Some existing \<longrightarrow>
            propose s (propose_request address chainId h t' v' d' n' pr') =
              Inr (s, \<lparr>status = 409,
                       body = ConflictBody ''Proposal with this hash already exists.''
                                (JProposal existing)\<rparr>))"
proof (intro conjI impI)
  assume fresh: "lookup (multisigData s) key h = None \<and> \<not> inherited s key \<and> \<not> inherited s h"
  with assms show created: "propose s (propose_request address chainId h t v d n pr) =
      Inr (s1, \<lparr>status = 201, body = ValueBody (JProposal p)\<rparr>)"
    by (simp add: propose_fresh Let_def)
  from assms(8) show stored: "lookup (multisigData s1) key h = Some p"
    by (simp add: lookup_upd)
  from stored assms show "propose s1 (propose_request address chainId h t' v' d' n' pr') =
      Inr (s1, \<lparr>status = 409,
                body = ConflictBody ''Proposal with this hash already exists.'' (JProposal p)\<rparr>)"
    by (simp add: propose_existing)
next
  assume "lookup (multisigData s) key h = Some existing"
  with assms show "propose s (propose_request address chainId h t' v' d' n' pr') =
      Inr (s, \<lparr>status = 409,
               body = ConflictBody ''Proposal with this hash already exists.''
                        (JProposal existing)\<rparr>)"
    by (simp add: propose_existing)
qed

lemma propose_creates_once_example:
  "propose initial
         (propose_request ''0xWa11et'' (Num 31337) ''0x01'' ''0xB0b'' (Num 500) ''0x'' 0
            (Some ''0xA11ce'')) =
     Inr (store1, \<lparr>status = 201, body = ValueBody (JProposal tx1)\<rparr>) \<and>
   lookup (multisigData store1) ''0xWa11et_31337'' ''0x01'' = Some tx1 \<and>
   propose store1
     (propose_request ''0xWa11et'' (Num 31337) ''0x01'' ''0xCar0l'' (Str ''7'') ''0xff'' 3 None) =
     Inr (store1, \<lparr>status = 409,
               body = ConflictBody ''Proposal with this hash already exists.'' (JProposal tx1)\<rparr>)"
proof -
  have p: "tx1 = \<lparr>hash = ''0x01'', to = ''0xB0b'', value_str = toStr (Num 500), data = ''0x'',
      nonce = 0, proposer = Some ''0xA11ce'', signatures = []\<rparr>"
    by (simp add: tx1_def show_int_def show_nat.simps)
  have s1: "store1 = initial\<lparr>multisigData := (multisigData initial)
      (''0xWa11et_31337'' \<mapsto>
         (case multisigData initial ''0xWa11et_31337'' of None \<Rightarrow> Map.empty | Some e \<Rightarrow> e)
         (''0x01'' \<mapsto> tx1))\<rparr>"
    by (simp add: store1_def initial_def)
  have s1': "store1 = store1\<lparr>multisigData := (multisigData store1)
      (''0xWa11et_31337'' \<mapsto>
         (case multisigData store1 ''0xWa11et_31337'' of None \<Rightarrow> Map.empty | Some e \<Rightarrow> e)
         (''0x01'' \<mapsto> tx1))\<rparr>"
    by (simp add: store1_def initial_def)
  have ne: "''0xWa11et'' \<noteq> []" "\<not> falsy_scalar (Some (Num 31337))" "''0x01'' \<noteq> []"
      "''0xB0b'' \<noteq> []" "''0xCar0l'' \<noteq> []"
    by simp_all
  from propose_creates_once [OF ne key1 [symmetric] p s1, of "Str ''7''" "''0xff''" 3 None tx1]
    propose_creates_once [OF ne key1 [symmetric] p s1', of "Str ''7''" "''0xff''" 3 None tx1]
    initial_clean lookup_initial lookup_store1 [of "''0x01''"]
  show ?thesis
    by simp
qed

text \<open>
  C3. The claim: for every key and hash, the first \<^verbatim>\<open>/propose\<close> of the hash creates the
  proposal with no signatures and answers 201, and a later one answers with the stored
  proposal and changes nothing. The handler takes a truthy \<^verbatim>\<open>multisigData[key][hash]\<close>
  for a stored proposal (its comment: \<^verbatim>\<open>Check if this proposal hash already exists for
  this multisig\<close>), and a plain object has truthy members that nobody stored: on the
  empty coordinator the first \<^verbatim>\<open>/propose\<close> of the hash \<^verbatim>\<open>constructor\<close> is answered 409,
  \<^verbatim>\<open>Proposal with this hash already exists.\<close>, with the inherited function where the
  existing proposal should be, and no proposal is stored. (For a key and a hash that are
  not inherited names the handler does as claimed: \<open>propose_creates_once\<close> above.)
\<close>

theorem first_propose_of_inherited_name:
  "lookup (multisigData initial) ''0xWa11et_31337'' ''constructor'' = None \<and>
   propose initial
     (propose_request ''0xWa11et'' (Num 31337) ''constructor'' ''0xB0b'' (Num 500) ''0x'' 0
        (Some ''0xA11ce'')) =
     Inr (initial\<lparr>multisigData := [''0xWa11et_31337'' \<mapsto> Map.empty]\<rparr>,
          \<lparr>status = 409,
           body = ConflictBody ''Proposal with this hash already exists.''
                    (BuiltinFunction ''constructor'')\<rparr>)"
  by (simp add: run_defs initial_def lookup_def)

section \<open>The proposer\<close>






section \<open>Signing\<close>

lemma approve_outcomes:
  assumes "address \<noteq> []" and "\<not> falsy_scalar (Some chainId)" and "h \<noteq> []"
    and "who \<noteq> []" and "sg \<noteq> []"
    and "key = multisigKey address (toStr chainId)"
    and "p1 = p\<lparr>signatures := signatures p @ [\<lparr>signer = who, signature = sg\<rparr>]\<rparr>"
  shows "(lookup (multisigData s) key h = None \<and> \<not> inherited s key \<and> \<not> inherited s h \<longrightarrow>
            sign s (sign_request address chainId h who sg) =
              Inr (s, \<lparr>status = 404,
                       body = ErrorBody (if multisigData s key = None
                                         then ''Multisig contract not found in backend storage.''
                                         else ''Proposal with the given hash not found.'')\<rparr>)) \<and>
         (lookup (multisigData s) key h = Some p \<and> claimed p who \<longrightarrow>
            sign s (sign_request address chainId h who sg) =
              Inr (s, \<lparr>status = 409,
                       body = ConflictBody ''Signer has already signed this proposal.''
                                (JProposal p)\<rparr>)) \<and>
         (lookup (multisigData s) key h = Some p \<and> \<not> claimed p who \<longrightarrow>
            (\<exists>s'. sign s (sign_request address chainId h who sg) =
                     Inr (s', \<lparr>status = 200, body = ValueBody (JProposal p1)\<rparr>) \<and>
                   lookup (multisigData s') key h = Some p1 \<and>
                   objectPrototype s' = objectPrototype s \<and> functionProps s' = functionProps s))"
proof (intro conjI impI)
  assume "lookup (multisigData s) key h = None \<and> \<not> inherited s key \<and> \<not> inherited s h"
  with assms show "sign s (sign_request address chainId h who sg) =
     Inr (s, \<lparr>status = 404,
              body = ErrorBody (if multisigData s key = None
                                then ''Multisig contract not found in backend storage.''
                                else ''Proposal with the given hash not found.'')\<rparr>)"
    by (simp add: sign_unknown)
next
  assume "lookup (multisigData s) key h = Some p \<and> claimed p who"
  with assms show "sign s (sign_request address chainId h who sg) =
      Inr (s, \<lparr>status = 409,
               body = ConflictBody ''Signer has already signed this proposal.'' (JProposal p)\<rparr>)"
    by (simp add: sign_claimed)
next
  assume a: "lookup (multisigData s) key h = Some p \<and> \<not> claimed p who"
  then obtain entries where e: "multisigData s key = Some entries" "entries h = Some p"
    by (auto simp add: lookup_def split: option.splits)
  with a assms have r: "sign s (sign_request address chainId h who sg) =
      Inr (s\<lparr>multisigData := (multisigData s)(key \<mapsto> entries(h \<mapsto> p1))\<rparr>,
           \<lparr>status = 200, body = ValueBody (JProposal p1)\<rparr>)"
    by (simp add: sign_appends Let_def)
  show "\<exists>s'. sign s (sign_request address chainId h who sg) =
                Inr (s', \<lparr>status = 200, body = ValueBody (JProposal p1)\<rparr>) \<and>
              lookup (multisigData s') key h = Some p1 \<and>
              objectPrototype s' = objectPrototype s \<and> functionProps s' = functionProps s"
    by (rule exI [of _ "s\<lparr>multisigData := (multisigData s)(key \<mapsto> entries(h \<mapsto> p1))\<rparr>"])
       (simp add: r lookup_upd)
qed

lemma approve_outcomes_example:
  "sign store1 (sign_request ''0xWa11et'' (Num 31337) ''0x99'' ''0xA11ce'' ''0x5161'') =
     Inr (store1, \<lparr>status = 404, body = ErrorBody ''Proposal with the given hash not found.''\<rparr>) \<and>
   sign store2 (sign_request ''0xWa11et'' (Num 31337) ''0x01'' ''0xa11CE'' ''0x5162'') =
     Inr (store2, \<lparr>status = 409,
               body = ConflictBody ''Signer has already signed this proposal.'' (JProposal tx2)\<rparr>) \<and>
   (\<exists>s'. sign store1 (sign_request ''0xWa11et'' (Num 31337) ''0x01'' ''0xA11ce'' ''0x5161'') =
            Inr (s', \<lparr>status = 200, body = ValueBody (JProposal tx2)\<rparr>) \<and>
          lookup (multisigData s') ''0xWa11et_31337'' ''0x01'' = Some tx2)"
proof -
  have ne: "''0xWa11et'' \<noteq> []" "\<not> falsy_scalar (Some (Num 31337))"
    by simp_all
  have t: "tx2 = tx1\<lparr>signatures := signatures tx1 @ [\<lparr>signer = ''0xA11ce'', signature = ''0x5161''\<rparr>]\<rparr>"
    by (simp add: tx2_def tx1_def)
  have t': "tx2\<lparr>signatures := signatures tx2 @ [\<lparr>signer = ''0xa11CE'', signature = ''0x5162''\<rparr>]\<rparr> =
      tx2\<lparr>signatures := signatures tx2 @ [\<lparr>signer = ''0xa11CE'', signature = ''0x5162''\<rparr>]\<rparr>"
    by simp
  have k: "multisigData store1 ''0xWa11et_31337'' \<noteq> None"
    by (simp add: store1_def)
  from approve_outcomes [OF ne _ _ _ key1 [symmetric] t, of "''0x99''" store1]
    approve_outcomes [OF ne _ _ _ key1 [symmetric] t' [symmetric], of "''0x01''" store2]
    approve_outcomes [OF ne _ _ _ key1 [symmetric] t, of "''0x01''" store1]
    tx2_claimed tx1_unclaimed [of "''0xA11ce''"] store1_clean k
  show ?thesis
    by (auto simp add: lookup_store1 lookup_store2)
qed

text \<open>
  C4. The claim: a \<^verbatim>\<open>/sign\<close> for a key and a hash with no proposal is answered with
  not-found, one for a signer who has an entry with a conflict, and any other appends
  the entry. The last two hold (\<open>approve_outcomes\<close> above), and the first for a key and
  a hash that are not inherited names. For the hash \<^verbatim>\<open>toString\<close> under a stored key,
  with no proposal of that hash, the handler takes the inherited function for the
  proposal (its test \<^verbatim>\<open>!proposal\<close> is commented \<^verbatim>\<open>Check if the proposal exists for this
  multisig\<close>): \<^verbatim>\<open>proposal.signatures\<close> is \<^verbatim>\<open>undefined\<close>, \<^verbatim>\<open>.find\<close> throws, and the request
  gets an exception where the claim has the 404.
\<close>

theorem sign_of_inherited_name_throws:
  "lookup (multisigData store1) ''0xWa11et_31337'' ''toString'' = None \<and>
   sign store1 (sign_request ''0xWa11et'' (Num 31337) ''toString'' ''0xA11ce'' ''0x5161'') =
     Inl TypeError"
  by (simp add: run_defs store1_def initial_def lookup_def)

text \<open>
  C8. \<^verbatim>\<open>/sign\<close> checks no signature: for any non-empty signer and signature strings,
  when the proposal is stored and has no entry of the claimed signer, the answer is 200
  and the stored signature list is the old one followed by the two strings as they were
  sent. Nothing is asked of the signature but that it is not empty.
\<close>

theorem approve_stores_verbatim:
  assumes "address \<noteq> []" and "\<not> falsy_scalar (Some chainId)" and "h \<noteq> []"
    and "who \<noteq> []" and "sg \<noteq> []"
    and "key = multisigKey address (toStr chainId)"
    and "lookup (multisigData s) key h = Some p" and "\<not> claimed p who"
  shows "\<exists>s' a. sign s (sign_request address chainId h who sg) = Inr (s', a) \<and>
           status a = 200 \<and>
           map_option signatures (lookup (multisigData s') key h) =
             Some (signatures p @ [\<lparr>signer = who, signature = sg\<rparr>])"
proof -
  from assms(7) obtain entries where e: "multisigData s key = Some entries" "entries h = Some p"
    by (auto simp add: lookup_def split: option.splits)
  let ?p1 = "p\<lparr>signatures := signatures p @ [\<lparr>signer = who, signature = sg\<rparr>]\<rparr>"
  from e assms have "sign s (sign_request address chainId h who sg) =
      Inr (s\<lparr>multisigData := (multisigData s)(key \<mapsto> entries(h \<mapsto> ?p1))\<rparr>,
           \<lparr>status = 200, body = ValueBody (JProposal ?p1)\<rparr>)"
    by (simp add: sign_appends Let_def)
  then show ?thesis
    by (intro exI [of _ "s\<lparr>multisigData := (multisigData s)(key \<mapsto> entries(h \<mapsto> ?p1))\<rparr>"]
        exI [of _ "\<lparr>status = 200, body = ValueBody (JProposal ?p1)\<rparr>"])
       (simp add: lookup_upd)
qed

theorem approve_stores_verbatim_witness:
  "\<exists>s' a. sign store2
      (sign_request ''0xWa11et'' (Num 31337) ''0x01'' ''0xB0b'' ''not a signature'') = Inr (s', a) \<and>
     status a = 200 \<and>
     map_option signatures (lookup (multisigData s') ''0xWa11et_31337'' ''0x01'') =
       Some [\<lparr>signer = ''0xA11ce'', signature = ''0x5161''\<rparr>,
             \<lparr>signer = ''0xB0b'', signature = ''not a signature''\<rparr>]"
proof -
  have ne: "''0xWa11et'' \<noteq> []" "\<not> falsy_scalar (Some (Num 31337))" "''0x01'' \<noteq> []"
      "''0xB0b'' \<noteq> []" "''not a signature'' \<noteq> []"
    by simp_all
  have l: "lookup (multisigData store2) ''0xWa11et_31337'' ''0x01'' = Some tx2"
    by (simp add: lookup_store2)
  from approve_stores_verbatim [OF ne key1 [symmetric] l tx2_unclaimed]
  show ?thesis
    by (simp add: tx2_def tx1_def)
qed

section \<open>What a request can change\<close>

lemma propose_frame:
  assumes "address \<noteq> []" and "\<not> falsy_scalar (Some chainId)" and "h \<noteq> []" and "t \<noteq> []"
    and "key = multisigKey address (toStr chainId)"
    and "\<not> inherited s key" and "\<not> inherited s h"
    and "propose s (propose_request address chainId h t v d n pr) = Inr (s', r)"
  shows "objectPrototype s' = objectPrototype s \<and> functionProps s' = functionProps s \<and>
         (k \<noteq> key \<longrightarrow> multisigData s' k = multisigData s k) \<and>
         (k \<noteq> key \<or> h' \<noteq> h \<longrightarrow> lookup (multisigData s') k h' = lookup (multisigData s) k h')"
proof (cases "lookup (multisigData s) key h")
  case None
  with assms propose_fresh [of address chainId h t s v d n pr]
  have "s' = s\<lparr>multisigData := (multisigData s)
      (key \<mapsto> (case multisigData s key of None \<Rightarrow> Map.empty | Some e \<Rightarrow> e)
         (h \<mapsto> \<lparr>hash = h, to = t, value_str = toStr v, data = d, nonce = n, proposer = pr,
                 signatures = []\<rparr>))\<rparr>"
    by (simp add: Let_def)
  then show ?thesis
    by (auto simp add: lookup_def split: option.splits)
next
  case (Some existing)
  with assms propose_existing [of address chainId h t s existing v d n pr]
  have "s' = s" by simp
  then show ?thesis by simp
qed

lemma sign_frame:
  assumes "address \<noteq> []" and "\<not> falsy_scalar (Some chainId)" and "h \<noteq> []"
    and "who \<noteq> []" and "sg \<noteq> []"
    and "key = multisigKey address (toStr chainId)"
    and "\<not> inherited s key" and "\<not> inherited s h"
    and "sign s (sign_request address chainId h who sg) = Inr (s', r)"
  shows "objectPrototype s' = objectPrototype s \<and> functionProps s' = functionProps s \<and>
         (k \<noteq> key \<longrightarrow> multisigData s' k = multisigData s k) \<and>
         (k \<noteq> key \<or> h' \<noteq> h \<longrightarrow> lookup (multisigData s') k h' = lookup (multisigData s) k h')"
proof (cases "lookup (multisigData s) key h")
  case None
  with assms sign_unknown [of address chainId h who sg s]
  have "s' = s" by simp
  then show ?thesis by simp
next
  case (Some p)
  then obtain entries where e: "multisigData s key = Some entries" "entries h = Some p"
    by (auto simp add: lookup_def split: option.splits)
  show ?thesis
  proof (cases "claimed p who")
    case True
    with Some assms sign_claimed [of address chainId h who sg s p]
    have "s' = s" by simp
    then show ?thesis by simp
  next
    case False
    with e assms sign_appends [of address chainId h who sg s entries p]
    have "s' = s\<lparr>multisigData := (multisigData s)
        (key \<mapsto> entries(h \<mapsto> p\<lparr>signatures := signatures p @ [\<lparr>signer = who, signature = sg\<rparr>]\<rparr>))\<rparr>"
      by (simp add: Let_def)
    with e show ?thesis
      by (auto simp add: lookup_def split: option.splits)
  qed
qed

lemma frame_example:
  "\<exists>s' r. propose store1
      (propose_request ''0xWa11et'' (Num 31337) ''0x02'' ''0xB0b'' (Num 1) ''0x'' 0 None) =
      Inr (s', r) \<and>
    objectPrototype s' = objectPrototype store1 \<and> functionProps s' = functionProps store1 \<and>
    multisigData s' ''0x0ther_1'' = multisigData store1 ''0x0ther_1'' \<and>
    lookup (multisigData s') ''0xWa11et_31337'' ''0x01'' = Some tx1"
proof -
  have ne: "''0xWa11et'' \<noteq> []" "\<not> falsy_scalar (Some (Num 31337))" "''0x02'' \<noteq> []"
      "''0xB0b'' \<noteq> []"
    by simp_all
  obtain s' r where run: "propose store1
      (propose_request ''0xWa11et'' (Num 31337) ''0x02'' ''0xB0b'' (Num 1) ''0x'' 0 None) =
      Inr (s', r)"
    using propose_fresh [OF ne, of store1 "Num 1" "''0x''" 0 None] store1_clean
      lookup_store1 [of "''0x02''"]
    by (simp add: multisigKey_def show_int_def show_nat.simps Let_def)
  from propose_frame [OF ne key1 [symmetric] store1_clean(1) store1_clean(3) run,
      of "''0x0ther_1''" "''0x01''"]
    propose_frame [OF ne key1 [symmetric] store1_clean(1) store1_clean(3) run,
      of "''0xWa11et_31337''" "''0x01''"]
  have "objectPrototype s' = objectPrototype store1 \<and> functionProps s' = functionProps store1 \<and>
    multisigData s' ''0x0ther_1'' = multisigData store1 ''0x0ther_1'' \<and>
    lookup (multisigData s') ''0xWa11et_31337'' ''0x01'' = Some tx1"
    by (simp add: lookup_store1)
  with run show ?thesis by blast
qed

text \<open>
  C6. The claim: \<^verbatim>\<open>multisigData\<close>, the mapping from keys to the proposals of each hash, is
  all the state the coordinator changes, and a \<^verbatim>\<open>/propose\<close> or \<^verbatim>\<open>/sign\<close> changes at most
  the entry of its own key and hash. For keys and hashes that are not inherited names that
  is so (\<open>propose_frame\<close>, \<open>sign_frame\<close> and \<open>get_proposals_state\<close> above). A
  \<^verbatim>\<open>/propose\<close> with the address \<^verbatim>\<open>_\<close> and the chain \<^verbatim>\<open>proto__\<close> has the key
  \<^verbatim>\<open>__proto__\<close>: \<^verbatim>\<open>multisigData[key]\<close> is \<^verbatim>\<open>Object.prototype\<close>, the handler does not
  \<^verbatim>\<open>Initialize storage for this multisig\<close>, as its comment has it, and writes the
  proposal there. \<^verbatim>\<open>multisigData\<close> is as it was, the state outside it is not, and
  every other key has changed with it: the \<^verbatim>\<open>/propose\<close> of that hash for a wallet, which
  the empty coordinator answers 201, is answered 409 now, and a \<^verbatim>\<open>/sign\<close> for that
  wallet then adds its entry to the proposal on \<^verbatim>\<open>Object.prototype\<close> and leaves the
  wallet's own entry empty.
\<close>

theorem propose_reaches_object_prototype:
  "propose initial
     (propose_request ''_'' (Str ''proto__'') ''0x01'' ''0xB0b'' (Num 500) ''0x'' 0 (Some ''0xA11ce'')) =
     Inr (polluted1, \<lparr>status = 201, body = ValueBody (JProposal tx1)\<rparr>) \<and>
   multisigData polluted1 = multisigData initial \<and>
   objectPrototype polluted1 \<noteq> objectPrototype initial \<and>
   propose initial
     (propose_request ''0xWa11et'' (Num 31337) ''0x01'' ''0xCar01'' (Num 7) ''0x'' 1 None) =
     Inr (initial\<lparr>multisigData := [''0xWa11et_31337'' \<mapsto>
            [''0x01'' \<mapsto> \<lparr>hash = ''0x01'', to = ''0xCar01'', value_str = ''7'', data = ''0x'',
                           nonce = 1, proposer = None, signatures = []\<rparr>]]\<rparr>,
          \<lparr>status = 201,
           body = ValueBody (JProposal
             \<lparr>hash = ''0x01'', to = ''0xCar01'', value_str = ''7'', data = ''0x'',
              nonce = 1, proposer = None, signatures = []\<rparr>)\<rparr>) \<and>
   propose polluted1
     (propose_request ''0xWa11et'' (Num 31337) ''0x01'' ''0xCar01'' (Num 7) ''0x'' 1 None) =
     Inr (polluted2,
          \<lparr>status = 409,
           body = ConflictBody ''Proposal with this hash already exists.''
                    (JPolluted \<lparr>own_fields = tx1, added = Map.empty\<rparr>)\<rparr>) \<and>
   sign polluted2 (sign_request ''0xWa11et'' (Num 31337) ''0x01'' ''0xB0b'' ''0x5162'') =
     Inr (polluted2\<lparr>objectPrototype := [''0x01'' \<mapsto>
            \<lparr>own_fields = tx1\<lparr>signatures := [\<lparr>signer = ''0xB0b'', signature = ''0x5162''\<rparr>]\<rparr>,
             added = Map.empty\<rparr>]\<rparr>,
          \<lparr>status = 200,
           body = ValueBody (JPolluted
             \<lparr>own_fields = tx1\<lparr>signatures := [\<lparr>signer = ''0xB0b'', signature = ''0x5162''\<rparr>]\<rparr>,
              added = Map.empty\<rparr>)\<rparr>) \<and>
   multisigData polluted2 ''0xWa11et_31337'' = Some Map.empty"
  by (simp add: run_defs polluted1_def polluted2_def initial_def tx1_def)

section \<open>One approval for each claimed identity\<close>

lemma unique_append:
  "unique_approvals p \<Longrightarrow> \<not> claimed p who \<Longrightarrow>
   unique_approvals (p\<lparr>signatures := signatures p @ [\<lparr>signer = who, signature = sg\<rparr>]\<rparr>)"
  by (simp add: unique_approvals_def claimed_def)

lemma propose_keeps_ok:
  assumes "propose s b = Inr (s', r)" and "store_ok (multisigData s)"
  shows "store_ok (multisigData s')"
  using propose_stored [OF assms(1)] assms(2)
  by (auto simp add: store_ok_def lookup_def unique_approvals_def split: option.splits if_splits)

lemma sign_keeps_ok:
  assumes run: "sign s b = Inr (s', r)" and ok: "store_ok (multisigData s)"
  shows "store_ok (multisigData s')"
proof -
  from sign_stored [OF run] show ?thesis
  proof
    assume "multisigData s' = multisigData s"
    with ok show ?thesis by simp
  next
    assume "\<exists>key entries h p who sg. sb_key b = Some key \<and> sb_hash b = Some h \<and>
      multisigData s key = Some entries \<and> entries h = Some p \<and> \<not> claimed p who \<and>
      multisigData s' =
        (multisigData s)(key \<mapsto> entries(h \<mapsto> p\<lparr>signatures := signatures p @ [\<lparr>signer = who, signature = sg\<rparr>]\<rparr>))"
    then obtain key entries h p who sg where
      e: "multisigData s key = Some entries" "entries h = Some p" "\<not> claimed p who"
      and r: "multisigData s' =
        (multisigData s)(key \<mapsto> entries(h \<mapsto> p\<lparr>signatures := signatures p @ [\<lparr>signer = who, signature = sg\<rparr>]\<rparr>))"
      by blast
    from e have "lookup (multisigData s) key h = Some p"
      by (simp add: lookup_def)
    with ok have "unique_approvals p"
      by (simp add: store_ok_def)
    with e have u: "unique_approvals (p\<lparr>signatures := signatures p @ [\<lparr>signer = who, signature = sg\<rparr>]\<rparr>)"
      by (simp add: unique_append)
    show ?thesis
      unfolding store_ok_def
    proof (intro allI impI)
      fix k h' q
      assume "lookup (multisigData s') k h' = Some q"
      with r have "(k = key \<and> h' = h \<and> q = p\<lparr>signatures := signatures p @ [\<lparr>signer = who, signature = sg\<rparr>]\<rparr>)
          \<or> lookup (multisigData s) k h' = Some q"
        using e by (auto simp add: lookup_upd lookup_def split: if_splits)
      with u ok show "unique_approvals q"
        by (auto simp add: store_ok_def)
    qed
  qed
qed

lemma step_keeps_ok: "step s s' \<Longrightarrow> store_ok (multisigData s) \<Longrightarrow> store_ok (multisigData s')"
proof (induction rule: step.induct)
  case (step_list s address chainId s' r)
  from get_proposals_state [OF step_list.hyps] step_list.prems show ?case by simp
next
  case (step_propose s pb s' r)
  then show ?case by (rule propose_keeps_ok)
next
  case (step_sign s sb s' r)
  then show ?case by (rule sign_keeps_ok)
qed

lemma reachable_ok: "reachable s \<Longrightarrow> store_ok (multisigData s)"
proof (induction rule: reachable.induct)
  case reachable_init
  show ?case by (simp add: store_ok_def lookup_def initial_def)
next
  case (reachable_step s s')
  then show ?case by (simp add: step_keeps_ok)
qed

lemma proposals_ok_upd:
  "proposals_ok entries \<Longrightarrow> unique_approvals p \<Longrightarrow> proposals_ok (entries(h \<mapsto> p))"
  by (simp add: proposals_ok_def)

lemma proposals_ok_empty: "proposals_ok Map.empty"
  by (simp add: proposals_ok_def)

lemma unique_new: "signatures p = [] \<Longrightarrow> unique_approvals p"
  by (simp add: unique_approvals_def)

lemma state_ok_init:
  "state_ok s \<Longrightarrow> state_ok (s\<lparr>multisigData := (multisigData s)(key \<mapsto> Map.empty)\<rparr>)"
  by (simp add: state_ok_def proposals_ok_empty)

lemma at_target:
  "multisigData_at s key = Some tg \<Longrightarrow>
   (case tg of
      Entries e \<Rightarrow> multisigData s key = Some e
    | PollutedObject q \<Rightarrow> objectPrototype s key = Some q
    | _ \<Rightarrow> True)"
  by (auto simp add: multisigData_at_def split: option.splits if_splits target.splits)

lemma target_ok:
  assumes "state_ok s" and "multisigData_at s key = Some tg"
  shows "case tg of
      Entries e \<Rightarrow> proposals_ok e
    | PollutedObject q \<Rightarrow> proposals_ok (added q)
    | _ \<Rightarrow> True"
  using at_target [OF assms(2)] assms(1)
  by (cases tg) (auto simp add: state_ok_def)

lemma store_new_ok:
  assumes "state_ok s" and "multisigData_at s key = Some tg" and "signatures p = []"
    and "store_new s key tg h p = Inr s'"
  shows "state_ok s'"
proof (cases tg)
  case (Entries e)
  with target_ok [OF assms(1,2)] have "proposals_ok e" by simp
  with assms(3) have "proposals_ok (e(h \<mapsto> p))"
    by (simp add: proposals_ok_upd unique_new)
  with assms(1,4) Entries show ?thesis
    by (auto simp add: state_ok_def split: if_splits)
next
  case TheObjectPrototype
  with assms(1,3,4) show ?thesis
    by (auto simp add: state_ok_def unique_new proposals_ok_empty split: if_splits)
next
  case (TheFunction f)
  from assms(1) have "proposals_ok (functionProps s f)"
    by (simp add: state_ok_def)
  with assms(3) have "proposals_ok ((functionProps s f)(h \<mapsto> p))"
    by (simp add: proposals_ok_upd unique_new)
  with assms(1,4) TheFunction show ?thesis
    by (auto simp add: state_ok_def split: if_splits)
next
  case (PollutedObject q)
  with at_target [OF assms(2)] have q: "objectPrototype s key = Some q" by simp
  with assms(1) have "unique_approvals (own_fields q)" "proposals_ok (added q)"
    by (auto simp add: state_ok_def split: if_splits)
  with assms(3) have "unique_approvals (own_fields q)" "proposals_ok ((added q)(h \<mapsto> p))"
    by (simp_all add: proposals_ok_upd unique_new)
  with assms(1,4) PollutedObject show ?thesis
    by (auto simp add: state_ok_def split: if_splits)
qed

lemma propose_keeps_state_ok:
  assumes run: "propose s b = Inr (s', r)" and ok: "state_ok s"
  shows "state_ok s'"
proof -
  from propose_body_cases [of b] show ?thesis
  proof
    assume "propose_invalid b"
    with run ok show ?thesis by (simp add: propose_rejects)
  next
    assume "\<exists>address chainId h t v d n pr.
      address \<noteq> [] \<and> \<not> falsy_scalar (Some chainId) \<and> h \<noteq> [] \<and> t \<noteq> [] \<and>
      b = propose_request address chainId h t v d n pr"
    then obtain address chainId h t v d n pr where
      valid: "address \<noteq> []" "\<not> falsy_scalar (Some chainId)" "h \<noteq> []" "t \<noteq> []"
      and b: "b = propose_request address chainId h t v d n pr"
      by blast
    let ?key = "multisigKey address (toStr chainId)"
    let ?new = "\<lparr>hash = h, to = t, value_str = toStr v, data = d, nonce = n, proposer = pr,
                 signatures = []\<rparr>"
    show ?thesis
    proof (cases "multisigData_at s ?key")
      case None
      from ok have "state_ok (s\<lparr>multisigData := (multisigData s)(?key \<mapsto> Map.empty)\<rparr>)"
        by (rule state_ok_init)
      moreover from ok have "state_ok (s\<lparr>multisigData := (multisigData s)(?key \<mapsto> [h \<mapsto> ?new])\<rparr>)"
        by (simp add: state_ok_def proposals_ok_def unique_approvals_def)
      ultimately show ?thesis
        using propose_run_none [OF valid None, of v d n pr] run b
        by (auto split: if_splits)
    next
      case (Some tg)
      note eq = propose_run_some [OF valid Some, of v d n pr]
      from eq run b obtain existing where m: "member s tg h = Inr existing"
        by (cases "member s tg h") auto
      show ?thesis
      proof (cases "truthy existing")
        case True
        with eq m run b have "s' = s" by simp
        with ok show ?thesis by simp
      next
        case False
        with eq m run b have "store_new s ?key tg h ?new = Inr s'"
          by (cases "store_new s ?key tg h ?new") auto
        with ok Some show ?thesis
          by (intro store_new_ok [of s ?key tg ?new h s']) simp_all
      qed
    qed
  qed
qed

lemma member_polluted:
  "member s tg h = Inr (JPolluted q) \<Longrightarrow> objectPrototype s h = Some q"
  by (cases tg)
     (auto simp add: from_object_prototype_def own_field_def
        split: option.splits if_splits)

lemma member_proposal:
  "member s tg h = Inr (JProposal p) \<Longrightarrow>
   (case tg of
      Entries e \<Rightarrow> e h = Some p
    | TheFunction f \<Rightarrow> functionProps s f h = Some p
    | PollutedObject q \<Rightarrow> added q h = Some p
    | TheObjectPrototype \<Rightarrow> False)"
  by (cases tg)
     (auto simp add: from_object_prototype_def own_field_def
        split: option.splits if_splits)

lemma unique_extended:
  "unique_approvals p \<Longrightarrow>
   find (\<lambda>sigInfo. toLowerCase (signer sigInfo) = toLowerCase who) (signatures p) = None \<Longrightarrow>
   unique_approvals (p\<lparr>signatures := signatures p @ [\<lparr>signer = who, signature = sg\<rparr>]\<rparr>)"
  by (simp add: find_claimed unique_append)

lemma store_signatures_ok:
  assumes ok: "state_ok s" and at: "multisigData_at s key = Some tg"
    and m: "member s tg h = Inr proposal"
    and sigs: "signatures_of proposal = Some sigs"
    and none: "find (\<lambda>sigInfo. toLowerCase (signer sigInfo) = toLowerCase who) sigs = None"
  shows "state_ok (store_signatures s key tg h proposal (sigs @ [\<lparr>signer = who, signature = sg\<rparr>]))"
proof (cases proposal)
  case (JPolluted q)
  with m have q: "objectPrototype s h = Some q"
    by (simp add: member_polluted)
  with ok have u: "unique_approvals (own_fields q)" and a: "proposals_ok (added q)"
    by (auto simp add: state_ok_def split: if_splits)
  from sigs JPolluted have s: "sigs = signatures (own_fields q)" by simp
  from unique_extended [OF u none [unfolded s], of sg]
  have "unique_approvals ((own_fields q)\<lparr>signatures := sigs @ [\<lparr>signer = who, signature = sg\<rparr>]\<rparr>)"
    by (simp add: s)
  with ok a JPolluted show ?thesis
    by (auto simp add: state_ok_def split: if_splits)
next
  case (JProposal p)
  from sigs JProposal have s: "sigs = signatures p" by simp
  note found = member_proposal [OF m [unfolded JProposal]]
  show ?thesis
  proof (cases tg)
    case (Entries e)
    with found have e: "e h = Some p" by simp
    from Entries target_ok [OF ok at] have pe: "proposals_ok e" by simp
    with e have "unique_approvals p" by (auto simp add: proposals_ok_def)
    from unique_extended [OF this none [unfolded s], of sg] pe
    have "proposals_ok (e(h \<mapsto> p\<lparr>signatures := sigs @ [\<lparr>signer = who, signature = sg\<rparr>]\<rparr>))"
      by (simp add: proposals_ok_upd s)
    with ok Entries JProposal show ?thesis
      by (auto simp add: state_ok_def split: if_splits)
  next
    case TheObjectPrototype
    with found show ?thesis by simp
  next
    case (TheFunction f)
    with found have e: "functionProps s f h = Some p" by simp
    from ok have pe: "proposals_ok (functionProps s f)" by (simp add: state_ok_def)
    with e have "unique_approvals p" by (auto simp add: proposals_ok_def)
    from unique_extended [OF this none [unfolded s], of sg] pe
    have "proposals_ok ((functionProps s f)
        (h \<mapsto> p\<lparr>signatures := sigs @ [\<lparr>signer = who, signature = sg\<rparr>]\<rparr>))"
      by (simp add: proposals_ok_upd s)
    with ok TheFunction JProposal show ?thesis
      by (auto simp add: state_ok_def split: if_splits)
  next
    case (PollutedObject q)
    with found have e: "added q h = Some p" by simp
    from PollutedObject at_target [OF at] have q: "objectPrototype s key = Some q" by simp
    with ok have u: "unique_approvals (own_fields q)" and pe: "proposals_ok (added q)"
      by (auto simp add: state_ok_def split: if_splits)
    from pe e have "unique_approvals p" by (auto simp add: proposals_ok_def)
    from unique_extended [OF this none [unfolded s], of sg] pe
    have "proposals_ok ((added q)
        (h \<mapsto> p\<lparr>signatures := sigs @ [\<lparr>signer = who, signature = sg\<rparr>]\<rparr>))"
      by (simp add: proposals_ok_upd s)
    with ok u PollutedObject JProposal show ?thesis
      by (auto simp add: state_ok_def split: if_splits)
  qed
qed (use sigs in simp_all)

lemma sign_keeps_state_ok:
  assumes run: "sign s b = Inr (s', r)" and ok: "state_ok s"
  shows "state_ok s'"
proof -
  from sign_body_cases [of b] show ?thesis
  proof
    assume "sign_invalid b"
    with run ok show ?thesis by (simp add: sign_rejects)
  next
    assume "\<exists>address chainId h who sg.
      address \<noteq> [] \<and> \<not> falsy_scalar (Some chainId) \<and> h \<noteq> [] \<and> who \<noteq> [] \<and> sg \<noteq> [] \<and>
      b = sign_request address chainId h who sg"
    then obtain address chainId h who sg where
      valid: "address \<noteq> []" "\<not> falsy_scalar (Some chainId)" "h \<noteq> []" "who \<noteq> []" "sg \<noteq> []"
      and b: "b = sign_request address chainId h who sg"
      by blast
    let ?key = "multisigKey address (toStr chainId)"
    show ?thesis
    proof (cases "multisigData_at s ?key")
      case None
      from sign_run_none [OF valid None] run b ok show ?thesis by simp
    next
      case (Some tg)
      note eq = sign_run_some [OF valid Some]
      from eq run b obtain proposal where m: "member s tg h = Inr proposal"
        by (cases "member s tg h") auto
      show ?thesis
      proof (cases "truthy proposal")
        case False
        with m eq run b ok show ?thesis by simp
      next
        case True
        with m eq run b obtain sigs where sg: "signatures_of proposal = Some sigs"
          by (cases "signatures_of proposal") auto
        show ?thesis
        proof (cases "find (\<lambda>sigInfo. toLowerCase (signer sigInfo) = toLowerCase who) sigs")
          case (Some x)
          with m True sg eq run b ok show ?thesis by simp
        next
          case None
          with m True sg eq run b
          have "s' = store_signatures s ?key tg h proposal (sigs @ [\<lparr>signer = who, signature = sg\<rparr>])"
            by simp
          with store_signatures_ok [OF ok \<open>multisigData_at s ?key = Some tg\<close> m sg None]
          show ?thesis by simp
        qed
      qed
    qed
  qed
qed

lemma step_keeps_state_ok: "step s s' \<Longrightarrow> state_ok s \<Longrightarrow> state_ok s'"
proof (induction rule: step.induct)
  case (step_list s address chainId s' r)
  from get_proposals_state [OF step_list.hyps] step_list.prems show ?case by simp
next
  case (step_propose s pb s' r)
  then show ?case by (rule propose_keeps_state_ok)
next
  case (step_sign s sb s' r)
  then show ?case by (rule sign_keeps_state_ok)
qed

lemma reachable_state_ok: "reachable s \<Longrightarrow> state_ok s"
proof (induction rule: reachable.induct)
  case reachable_init
  show ?case by (simp add: state_ok_def proposals_ok_def initial_def)
next
  case (reachable_step s s')
  then show ?case by (simp add: step_keeps_state_ok)
qed

lemma propose_accumulates:
  assumes run: "propose s b = Inr (s', r)" and "lookup (multisigData s) key h = Some p"
  shows "lookup (multisigData s') key h = Some p"
proof -
  from propose_stored [OF run] consider
    (same) "multisigData s' = multisigData s"
  | (init) key0 where "multisigData s key0 = None"
      "multisigData s' = (multisigData s)(key0 \<mapsto> Map.empty)"
  | (new) key0 h0 p0 where "lookup (multisigData s) key0 h0 = None"
      "multisigData s' =
         (multisigData s)(key0 \<mapsto> (case multisigData s key0 of None \<Rightarrow> Map.empty | Some e \<Rightarrow> e)(h0 \<mapsto> p0))"
    by blast
  then show ?thesis
  proof cases
    case same
    with assms(2) show ?thesis by simp
  next
    case init
    with assms(2) show ?thesis
      by (auto simp add: lookup_def split: option.splits if_splits)
  next
    case new
    with assms(2) show ?thesis
      by (auto simp add: lookup_def split: option.splits if_splits)
  qed
qed

lemma sign_accumulates:
  assumes run: "sign s b = Inr (s', r)" and "lookup (multisigData s) key h = Some p"
  shows "\<exists>p'. lookup (multisigData s') key h = Some p' \<and> prefix (signatures p) (signatures p') \<and>
              p'\<lparr>signatures := signatures p\<rparr> = p"
proof -
  from sign_stored [OF run] show ?thesis
  proof
    assume "multisigData s' = multisigData s"
    with assms(2) show ?thesis by simp
  next
    assume "\<exists>key entries h p who sg. sb_key b = Some key \<and> sb_hash b = Some h \<and>
      multisigData s key = Some entries \<and> entries h = Some p \<and> \<not> claimed p who \<and>
      multisigData s' =
        (multisigData s)(key \<mapsto> entries(h \<mapsto> p\<lparr>signatures := signatures p @ [\<lparr>signer = who, signature = sg\<rparr>]\<rparr>))"
    then obtain key0 entries h0 p0 who sg where
      e: "multisigData s key0 = Some entries" "entries h0 = Some p0"
      and r: "multisigData s' =
        (multisigData s)(key0 \<mapsto> entries(h0 \<mapsto> p0\<lparr>signatures := signatures p0 @ [\<lparr>signer = who, signature = sg\<rparr>]\<rparr>))"
      by blast
    show ?thesis
    proof (cases "key = key0 \<and> h = h0")
      case True
      with e assms(2) have "p0 = p"
        by (simp add: lookup_def)
      with True r show ?thesis
        by (simp add: lookup_upd)
    next
      case False
      with r e assms(2) have "lookup (multisigData s') key h = Some p"
        by (auto simp add: lookup_def split: option.splits if_splits)
      then show ?thesis by simp
    qed
  qed
qed

lemma step_accumulates:
  assumes "step s s'" and "lookup (multisigData s) key h = Some p"
  shows "\<exists>p'. lookup (multisigData s') key h = Some p' \<and> prefix (signatures p) (signatures p') \<and>
              p'\<lparr>signatures := signatures p\<rparr> = p"
  using assms
proof (induction rule: step.induct)
  case (step_list s address chainId s' r)
  from get_proposals_state [OF step_list.hyps] step_list.prems show ?case by simp
next
  case (step_propose s pb s' r)
  from propose_accumulates [OF step_propose.hyps step_propose.prems] show ?case by simp
next
  case (step_sign s sb s' r)
  then show ?case by (rule sign_accumulates)
qed

lemma reachable_store1: "reachable store1"
  using reachable_step [OF reachable_init step_propose [OF store1_made]] .

lemma reachable_store2: "reachable store2"
  using reachable_step [OF reachable_store1 step_sign [OF store2_made]] .

text \<open>
  C2. In every state the coordinator can reach, the signers of a stored proposal are
  pairwise different in lower case. Any request keeps the proposal under its key and
  hash, with its fields as they were and its signature list extended at the end, if at
  all: no entry is replaced or removed. A \<^verbatim>\<open>/sign\<close> request that passes the validation
  and claims a signer who has an entry is answered 409 with the state unchanged. The
  signers are pairwise different also in the proposals that are not in \<^verbatim>\<open>multisigData\<close>:
  the ones a handler has written to \<^verbatim>\<open>Object.prototype\<close> or to an inherited function
  (\<open>state_ok\<close>).
\<close>

theorem one_approval_per_identity:
  assumes "reachable s" and "lookup (multisigData s) key h = Some p"
  shows "distinct (map (\<lambda>sigInfo. toLowerCase (signer sigInfo)) (signatures p)) \<and>
         (step s s' \<longrightarrow>
            (\<exists>p'. lookup (multisigData s') key h = Some p' \<and>
                  prefix (signatures p) (signatures p') \<and>
                  p'\<lparr>signatures := signatures p\<rparr> = p)) \<and>
         (address \<noteq> [] \<and> \<not> falsy_scalar (Some chainId) \<and> h \<noteq> [] \<and> who \<noteq> [] \<and> sg \<noteq> [] \<and>
          key = multisigKey address (toStr chainId) \<and> claimed p who \<longrightarrow>
            sign s (sign_request address chainId h who sg) =
              Inr (s, \<lparr>status = 409,
                       body = ConflictBody ''Signer has already signed this proposal.''
                                (JProposal p)\<rparr>)) \<and>
         state_ok s"
proof (intro conjI impI)
  from assms reachable_ok [of s]
  show "distinct (map (\<lambda>sigInfo. toLowerCase (signer sigInfo)) (signatures p))"
    by (auto simp add: store_ok_def unique_approvals_def)
next
  assume "step s s'"
  with assms(2) step_accumulates [of s s' key h p]
  show "\<exists>p'. lookup (multisigData s') key h = Some p' \<and> prefix (signatures p) (signatures p') \<and>
      p'\<lparr>signatures := signatures p\<rparr> = p"
    by blast
next
  assume "address \<noteq> [] \<and> \<not> falsy_scalar (Some chainId) \<and> h \<noteq> [] \<and> who \<noteq> [] \<and> sg \<noteq> [] \<and>
          key = multisigKey address (toStr chainId) \<and> claimed p who"
  with assms(2) show "sign s (sign_request address chainId h who sg) =
      Inr (s, \<lparr>status = 409,
               body = ConflictBody ''Signer has already signed this proposal.'' (JProposal p)\<rparr>)"
    by (simp add: sign_claimed)
next
  from assms(1) show "state_ok s"
    by (rule reachable_state_ok)
qed

theorem one_approval_per_identity_witness:
  "distinct (map (\<lambda>sigInfo. toLowerCase (signer sigInfo)) (signatures tx2)) \<and>
   (\<exists>s' r p'. sign store2 (sign_request ''0xWa11et'' (Num 31337) ''0x01'' ''0xB0b'' ''0x5162'') =
        Inr (s', r) \<and>
      lookup (multisigData s') ''0xWa11et_31337'' ''0x01'' = Some p' \<and>
      prefix (signatures tx2) (signatures p') \<and> p'\<lparr>signatures := signatures tx2\<rparr> = tx2) \<and>
   sign store2 (sign_request ''0xWa11et'' (Num 31337) ''0x01'' ''0xa11CE'' ''0x5163'') =
     Inr (store2, \<lparr>status = 409,
               body = ConflictBody ''Signer has already signed this proposal.'' (JProposal tx2)\<rparr>)"
proof -
  have l: "lookup (multisigData store2) ''0xWa11et_31337'' ''0x01'' = Some tx2"
    by (simp add: lookup_store2)
  obtain s' r where run:
    "sign store2 (sign_request ''0xWa11et'' (Num 31337) ''0x01'' ''0xB0b'' ''0x5162'') = Inr (s', r)"
    by (simp add: run_defs store2_def tx2_def tx1_def initial_def)
  then have st: "step store2 s'"
    by (rule step_sign)
  from one_approval_per_identity [OF reachable_store2 l,
      of s' "''0xWa11et''" "Num 31337" "''0xa11CE''" "''0x5163''"]
    st tx2_claimed key1 run
  show ?thesis
    by auto
qed

section \<open>The list handed to the wallet\<close>

text \<open>
  C1. The claim: the list that \<^verbatim>\<open>getSortedSigList\<close> assembles has its recovered signers
  in strictly ascending order and no signer twice, whatever the signatures are. The
  second loop is there to drop repeats, and it compares signature strings, not signers
  (\<^verbatim>\<open>finalSigners\<close> is filled and never read): of three collected approvals two carry one
  signature in two spellings of its hexadecimal digits, both are kept, and the signers of
  the list are 3, 5, 5. The wallet's test \<^verbatim>\<open>duplicate or unordered signatures\<close> has such
  a list revert.
\<close>

theorem sorted_sig_list_not_strict:
  "getSortedSigList recover_two_spellings sigs_two_spellings ''0x01'' =
     Some [''0xcd02'', ''0xAB01'', ''0xab01''] \<and>
   sortedSigLists recover_two_spellings sigs_two_spellings ''0x01'' =
     Some ([''0xcd02'', ''0xAB01'', ''0xab01''], [3, 5, 5]) \<and>
   ''0xAB01'' \<noteq> ''0xab01'' \<and>
   recover_two_spellings ''0x01'' ''0xAB01'' = recover_two_spellings ''0x01'' ''0xab01'' \<and>
   \<not> strictly_ascending [3, 5, 5]"
  by (simp add: getSortedSigList_def sortedSigLists_def recover_two_spellings_def
      sigs_two_spellings_def sort_by_def compareSigners_def BigInt_def strictly_ascending_def
      used_def object_prototype_functions_def)

section \<open>Outdated transactions\<close>

lemma foldl_max_nonce:
  "a \<le> foldl (\<lambda>mx e. if f e > mx then f e else mx) a xs \<and>
   (\<forall>x\<in>set xs. f x \<le> foldl (\<lambda>mx e. if f e > mx then f e else mx) a xs) \<and>
   (foldl (\<lambda>mx e. if f e > mx then f e else mx) a xs = a \<or>
    foldl (\<lambda>mx e. if f e > mx then f e else mx) a xs \<in> f ` set xs)"
  for a :: int
proof (induction xs arbitrary: a)
  case Nil
  show ?case by simp
next
  case (Cons x xs)
  from Cons.IH [of "if f x > a then f x else a"] show ?case
    by (auto split: if_splits)
qed

lemma outdated_iff:
  "outdated (Some events) n \<longleftrightarrow>
     (\<exists>e\<in>set events. \<exists>m. ev_nonce e = Some m \<and> 0 < m \<and> n \<le> m)"
proof -
  let ?l = "foldl (\<lambda>mx e. if eventNonce e > mx then eventNonce e else mx) (- 1) events"
  have l: "lastExecutedNonce (Some events) = ?l"
    by (cases events) (simp_all add: lastExecutedNonce_def)
  have pos: "(\<exists>m. ev_nonce e = Some m \<and> 0 < m \<and> n \<le> m) \<longleftrightarrow> 0 \<le> eventNonce e \<and> n \<le> eventNonce e"
    for e
    by (cases "ev_nonce e") (auto simp add: eventNonce_def)
  from foldl_max_nonce [of "- 1" eventNonce events]
  have above: "\<forall>e\<in>set events. eventNonce e \<le> ?l"
    and found: "?l = - 1 \<or> ?l \<in> eventNonce ` set events"
    by blast+
  have "(0 \<le> ?l \<and> n \<le> ?l) \<longleftrightarrow> (\<exists>e\<in>set events. 0 \<le> eventNonce e \<and> n \<le> eventNonce e)"
  proof
    assume a: "0 \<le> ?l \<and> n \<le> ?l"
    with found have "?l \<in> eventNonce ` set events"
      by auto
    then obtain e where e: "e \<in> set events" and "?l = eventNonce e"
      by auto
    with a have "0 \<le> eventNonce e \<and> n \<le> eventNonce e"
      by simp
    with e show "\<exists>e\<in>set events. 0 \<le> eventNonce e \<and> n \<le> eventNonce e"
      by blast
  next
    assume "\<exists>e\<in>set events. 0 \<le> eventNonce e \<and> n \<le> eventNonce e"
    then obtain e where "e \<in> set events" and "0 \<le> eventNonce e" and "n \<le> eventNonce e"
      by blast
    with above show "0 \<le> ?l \<and> n \<le> ?l"
      by force
  qed
  with l pos show ?thesis
    by (simp add: outdated_def)
qed

text \<open>
  C7. The claim marks a transaction outdated when its nonce is at most the highest
  executed nonce. The page does not when that nonce is zero: after the one execution of
  nonce 0, \<^verbatim>\<open>lastExecutedNonce\<close> is still \<^verbatim>\<open>-1n\<close>, and a pending transaction of nonce 0
  is not marked. (\<open>outdated_iff\<close> above: only executed nonces above zero count.)
\<close>

theorem outdated_misses_nonce_zero:
  "lastExecutedNonce (Some [\<lparr>ev_hash = ''0x01'', ev_nonce = Some 0\<rparr>]) = - 1 \<and>
   \<not> outdated (Some [\<lparr>ev_hash = ''0x01'', ev_nonce = Some 0\<rparr>]) 0"
  by (simp add: outdated_def lastExecutedNonce_def eventNonce_def)

end
